theory Spec2Isabelle
  imports Main "HOL-Library.Word"
begin

unbundle bit_operations_syntax

section \<open>Data model of \<open>src/mina-signer/signature.ts\<close>\<close>

text \<open>
  Both fields are represented by JavaScript bigints (\<open>signature.ts\<close>, comment of
  \<open>hashMessage\<close>), so \<open>Field\<close> and \<open>Scalar\<close> are both \<open>int\<close>. A \<open>NetworkId\<close> is a
  string at run time: the union type \<open>'mainnet' | 'testnet'\<close> exists for the compiler only.
  The member \<open>fields\<close> of a \<open>HashInput\<close> is written \<open>fields'\<close>, since the record package
  keeps the name \<open>fields\<close> for itself; a member that the TypeScript object leaves out is
  the empty list.
\<close>

type_synonym Field = int
type_synonym Scalar = int
type_synonym PrivateKey = Scalar
type_synonym NetworkId = string
type_synonym byte = "8 word"

record Group =
  x :: Field
  y :: Field

record Signature =
  r :: Field
  s :: Scalar

record HashInput =
  fields' :: "Field list"
  packed :: "(Field \<times> nat) list"

text \<open>
  A JavaScript call either returns a value or throws. \<open>Throws (Error msg)\<close> is the
  completion of \<open>throw Error(msg)\<close>; it passes through every caller that has no
  \<open>try\<close>/\<open>catch\<close> around the call.
\<close>

datatype error = Error string

datatype 'a completion = Returns 'a | Throws error

definition networkIdMainnet :: Field where
  "networkIdMainnet = 0x01"

definition networkIdTestnet :: Field where
  "networkIdTestnet = 0x00"

subsection \<open>The imported primitives\<close>

text \<open>
  \<open>signature.ts\<close> imports its arithmetic, hashing and packing from modules that are
  outside the slice (\<open>field-bigint\<close>, \<open>curve-bigint\<close>, \<open>poseidon-bigint\<close>, \<open>binable\<close>,
  \<open>elliptic_curve\<close>, \<open>blakejs\<close>). They are parameters of the model, collected in one
  record: every function of \<open>signature.ts\<close> takes the record as its first argument
  and calls the primitives exactly where the source does. \<open>'k\<close> is the type of
  compressed public keys, \<open>'p\<close> the type of projective points. Of all primitives only
  \<open>Group.fromProjective\<close> is called under a \<open>try\<close>, and the source says that it throws
  on the point at infinity, so it alone returns a completion. The section on imported
  calls that may throw gives the functions a second time without that assumption.
\<close>

record ('k, 'p) backend =
  Field_isEven :: "Field \<Rightarrow> bool"
  Field_equal :: "Field \<Rightarrow> Field \<Rightarrow> bool"
  Field_toBits :: "Field \<Rightarrow> bool list"
  Field_fromBits :: "bool list \<Rightarrow> Field"
  Scalar_equal :: "Scalar \<Rightarrow> Scalar \<Rightarrow> bool"
  Scalar_negate :: "Scalar \<Rightarrow> Scalar"
  Scalar_add :: "Scalar \<Rightarrow> Scalar \<Rightarrow> Scalar"
  Scalar_mul :: "Scalar \<Rightarrow> Scalar \<Rightarrow> Scalar"
  Scalar_toBits :: "Scalar \<Rightarrow> bool list"
  Scalar_fromBytes :: "byte list \<Rightarrow> Scalar"
  Group_generatorMina :: Group
  Group_scale :: "Group \<Rightarrow> Scalar \<Rightarrow> Group"
  Group_toProjective :: "Group \<Rightarrow> 'p"
  Group_fromProjective :: "'p \<Rightarrow> Group completion"
  PublicKey_toGroup :: "'k \<Rightarrow> Group"
  Pallas_one :: "'p"
  Pallas_scale :: "'p \<Rightarrow> Scalar \<Rightarrow> 'p"
  Pallas_sub :: "'p \<Rightarrow> 'p \<Rightarrow> 'p"
  packToFields :: "HashInput \<Rightarrow> Field list"
  hashWithPrefix :: "string \<Rightarrow> Field list \<Rightarrow> Field"
  prefixes_signatureMainnet :: string
  prefixes_signatureTestnet :: string
  bitsToBytes :: "bool list \<Rightarrow> byte list"
  blake2b :: "byte list \<Rightarrow> byte list option \<Rightarrow> nat \<Rightarrow> byte list"

text \<open>
  Modelled from the spec: \<open>HashInput.append\<close> (module \<open>poseidon-bigint\<close>, not in the
  slice). Section 3 of the specification: concatenation is order-preserving, the fields
  list of the left operand precedes that of the right, likewise for the packed list.
  An absent list of the TypeScript object is the empty list here.
\<close>

definition HashInput_append :: "HashInput \<Rightarrow> HashInput \<Rightarrow> HashInput" where
  "HashInput_append input1 input2 =
     \<lparr>fields' = fields' input1 @ fields' input2, packed = packed input1 @ packed input2\<rparr>"

section \<open>The functions of \<open>signature.ts\<close>\<close>

text \<open>
  \<open>deriveNonce\<close>, lines 124 to 145. \<open>blake2b\<close> returns a fresh byte array;
  \<open>bytes[bytes.length - 1] &= 0x3f\<close> rewrites its last element in place (on an empty typed
  array the assignment to index \<open>-1\<close> does nothing).
\<close>

definition deriveNonce ::
  "('k, 'p) backend \<Rightarrow> HashInput \<Rightarrow> Group \<Rightarrow> Scalar \<Rightarrow> NetworkId \<Rightarrow> Scalar" where
  "deriveNonce B message publicKey privateKey networkId =
     (let d = Field_fromBits B (Scalar_toBits B privateKey);
          id = (if networkId = ''mainnet'' then networkIdMainnet else networkIdTestnet);
          input = HashInput_append message
                    \<lparr>fields' = [x publicKey, y publicKey, d], packed = [(id, 8)]\<rparr>;
          packedInput = packToFields B input;
          inputBits = concat (map (Field_toBits B) packedInput);
          inputBytes = bitsToBytes B inputBits;
          bytes = blake2b B inputBytes None 32;
          bytes = (if bytes = [] then bytes
                   else bytes[length bytes - 1 := (bytes ! (length bytes - 1)) AND 0x3f])
      in Scalar_fromBytes B bytes)"

text \<open>\<open>hashMessage\<close>, lines 163 to 176.\<close>

definition hashMessage ::
  "('k, 'p) backend \<Rightarrow> HashInput \<Rightarrow> Group \<Rightarrow> Field \<Rightarrow> NetworkId \<Rightarrow> Scalar" where
  "hashMessage B message publicKey r0 networkId =
     (let input = HashInput_append message
                    \<lparr>fields' = [x publicKey, y publicKey, r0], packed = []\<rparr>;
          prefix = (if networkId = ''mainnet'' then prefixes_signatureMainnet B
                    else prefixes_signatureTestnet B)
      in hashWithPrefix B prefix (packToFields B input))"

text \<open>\<open>sign\<close>, lines 96 to 109.\<close>

definition sign ::
  "('k, 'p) backend \<Rightarrow> HashInput \<Rightarrow> PrivateKey \<Rightarrow> NetworkId \<Rightarrow> Signature completion" where
  "sign B message privateKey networkId =
     (let publicKey = Group_scale B (Group_generatorMina B) privateKey;
          kPrime = deriveNonce B message publicKey privateKey networkId
      in if Scalar_equal B kPrime 0 then Throws (Error ''sign: derived nonce is 0'')
         else
           (let R = Group_scale B (Group_generatorMina B) kPrime;
                rx = x R;
                ry = y R;
                k = (if Field_isEven B ry then kPrime else Scalar_negate B kPrime);
                e = hashMessage B message publicKey rx networkId;
                s0 = Scalar_add B k (Scalar_mul B e privateKey)
            in Returns \<lparr>r = rx, s = s0\<rparr>))"

text \<open>
  \<open>verify\<close>, lines 188 to 206. The inner \<open>case\<close> is the body of the \<open>try\<close> block, the
  outer one its \<open>catch\<close>. Everything before the \<open>try\<close> is outside the handler.
\<close>

definition verify ::
  "('k, 'p) backend \<Rightarrow> Signature \<Rightarrow> HashInput \<Rightarrow> 'k \<Rightarrow> NetworkId \<Rightarrow> bool completion" where
  "verify B signature message publicKey networkId =
     (let pk = PublicKey_toGroup B publicKey;
          e = hashMessage B message pk (r signature) networkId;
          R = Pallas_sub B (Pallas_scale B (Pallas_one B) (s signature))
                           (Pallas_scale B (Group_toProjective B pk) e)
      in case (case Group_fromProjective B R of
                 Throws err \<Rightarrow> Throws err
               | Returns P \<Rightarrow>
                   Returns (Field_isEven B (y P) \<and> Field_equal B (x P) (r signature)))
         of Throws err \<Rightarrow> Returns False
          | Returns b \<Rightarrow> Returns b)"

text \<open>The convenience wrappers, lines 55 to 72.\<close>

definition signFieldElement ::
  "('k, 'p) backend \<Rightarrow> Field \<Rightarrow> PrivateKey \<Rightarrow> NetworkId \<Rightarrow> Signature completion" where
  "signFieldElement B message privateKey networkId =
     sign B \<lparr>fields' = [message], packed = []\<rparr> privateKey networkId"

definition verifyFieldElement ::
  "('k, 'p) backend \<Rightarrow> Signature \<Rightarrow> Field \<Rightarrow> 'k \<Rightarrow> NetworkId \<Rightarrow> bool completion" where
  "verifyFieldElement B signature message publicKey networkId =
     verify B signature \<lparr>fields' = [message], packed = []\<rparr> publicKey networkId"

text \<open>
  The point the verifier reconstructs, \<open>R = s\<cdot>G - e\<cdot>pk\<close> with \<open>e\<close> the recomputed
  challenge (lines 195 to 198 of \<open>verify\<close>).
\<close>

definition verify_R :: "('k, 'p) backend \<Rightarrow> Signature \<Rightarrow> HashInput \<Rightarrow> 'k \<Rightarrow> NetworkId \<Rightarrow> 'p" where
  "verify_R B signature message publicKey networkId =
     (let pk = PublicKey_toGroup B publicKey;
          e = hashMessage B message pk (r signature) networkId
      in Pallas_sub B (Pallas_scale B (Pallas_one B) (s signature))
                      (Pallas_scale B (Group_toProjective B pk) e))"

subsection \<open>The intermediate values of \<open>sign\<close>\<close>

text \<open>
  The local variables of \<open>sign\<close> by name, each defined as the source computes it:
  \<open>publicKey\<close> (line 101), \<open>kPrime\<close> (line 102), the commitment \<open>generator \<cdot> kPrime\<close>
  (line 104), \<open>k\<close> (line 105) and \<open>e\<close> (line 106).
\<close>

definition sign_publicKey :: "('k, 'p) backend \<Rightarrow> PrivateKey \<Rightarrow> Group" where
  "sign_publicKey B privateKey = Group_scale B (Group_generatorMina B) privateKey"

definition sign_kPrime :: "('k, 'p) backend \<Rightarrow> HashInput \<Rightarrow> PrivateKey \<Rightarrow> NetworkId \<Rightarrow> Scalar" where
  "sign_kPrime B message privateKey networkId =
     deriveNonce B message (sign_publicKey B privateKey) privateKey networkId"

definition sign_R :: "('k, 'p) backend \<Rightarrow> HashInput \<Rightarrow> PrivateKey \<Rightarrow> NetworkId \<Rightarrow> Group" where
  "sign_R B message privateKey networkId =
     Group_scale B (Group_generatorMina B) (sign_kPrime B message privateKey networkId)"

definition sign_k :: "('k, 'p) backend \<Rightarrow> HashInput \<Rightarrow> PrivateKey \<Rightarrow> NetworkId \<Rightarrow> Scalar" where
  "sign_k B message privateKey networkId =
     (if Field_isEven B (y (sign_R B message privateKey networkId))
      then sign_kPrime B message privateKey networkId
      else Scalar_negate B (sign_kPrime B message privateKey networkId))"

definition sign_e :: "('k, 'p) backend \<Rightarrow> HashInput \<Rightarrow> PrivateKey \<Rightarrow> NetworkId \<Rightarrow> Scalar" where
  "sign_e B message privateKey networkId =
     hashMessage B message (sign_publicKey B privateKey)
       (x (sign_R B message privateKey networkId)) networkId"

text \<open>The hash input \<open>deriveNonce\<close> builds at lines 130 to 136.\<close>

definition deriveNonce_input ::
  "('k, 'p) backend \<Rightarrow> HashInput \<Rightarrow> Group \<Rightarrow> Scalar \<Rightarrow> NetworkId \<Rightarrow> HashInput" where
  "deriveNonce_input B message publicKey privateKey networkId =
     (let d = Field_fromBits B (Scalar_toBits B privateKey);
          id = (if networkId = ''mainnet'' then networkIdMainnet else networkIdTestnet)
      in HashInput_append message
           \<lparr>fields' = [x publicKey, y publicKey, d], packed = [(id, 8)]\<rparr>)"

section \<open>The functions when an imported call may throw\<close>

text \<open>
  The record \<open>backend\<close> gives every import but \<open>Group.fromProjective\<close> a result for every
  argument. The modules behind the imports are outside the slice, and nothing in
  \<open>signature.ts\<close> keeps one of their functions from throwing. What \<open>signature.ts\<close> itself does
  with an exception of an imported call is decided by its own text: where the call stands
  and whether a \<open>try\<close> is around it. To state that, the four functions are given a second
  time over the record \<open>primitives\<close>, in which every imported function returns a completion;
  the field names are those of \<open>backend\<close> with a prime. \<open>cbind c f\<close> is the sequencing of
  JavaScript statements: when \<open>c\<close> throws, what follows is skipped and the exception is
  the completion of the whole; when \<open>c\<close> returns \<open>v\<close>, the rest \<open>f v\<close> runs. Calls are
  sequenced in the order in which JavaScript evaluates them, arguments from left to right
  before the call.
\<close>

record ('k, 'p) primitives =
  Field_isEven' :: "Field \<Rightarrow> bool completion"
  Field_equal' :: "Field \<Rightarrow> Field \<Rightarrow> bool completion"
  Field_toBits' :: "Field \<Rightarrow> bool list completion"
  Field_fromBits' :: "bool list \<Rightarrow> Field completion"
  Scalar_equal' :: "Scalar \<Rightarrow> Scalar \<Rightarrow> bool completion"
  Scalar_negate' :: "Scalar \<Rightarrow> Scalar completion"
  Scalar_add' :: "Scalar \<Rightarrow> Scalar \<Rightarrow> Scalar completion"
  Scalar_mul' :: "Scalar \<Rightarrow> Scalar \<Rightarrow> Scalar completion"
  Scalar_toBits' :: "Scalar \<Rightarrow> bool list completion"
  Scalar_fromBytes' :: "byte list \<Rightarrow> Scalar completion"
  Group_generatorMina' :: Group
  Group_scale' :: "Group \<Rightarrow> Scalar \<Rightarrow> Group completion"
  Group_toProjective' :: "Group \<Rightarrow> 'p completion"
  Group_fromProjective' :: "'p \<Rightarrow> Group completion"
  PublicKey_toGroup' :: "'k \<Rightarrow> Group completion"
  Pallas_one' :: "'p"
  Pallas_scale' :: "'p \<Rightarrow> Scalar \<Rightarrow> 'p completion"
  Pallas_sub' :: "'p \<Rightarrow> 'p \<Rightarrow> 'p completion"
  packToFields' :: "HashInput \<Rightarrow> Field list completion"
  hashWithPrefix' :: "string \<Rightarrow> Field list \<Rightarrow> Field completion"
  prefixes_signatureMainnet' :: string
  prefixes_signatureTestnet' :: string
  bitsToBytes' :: "bool list \<Rightarrow> byte list completion"
  blake2b' :: "byte list \<Rightarrow> byte list option \<Rightarrow> nat \<Rightarrow> byte list completion"

definition cbind :: "'a completion \<Rightarrow> ('a \<Rightarrow> 'b completion) \<Rightarrow> 'b completion" where
  "cbind c f = (case c of Throws err \<Rightarrow> Throws err | Returns v \<Rightarrow> f v)"

text \<open>
  \<open>Array.prototype.map\<close> with a callback that may throw: the elements are visited from
  the first to the last, and the first exception ends the loop.
\<close>

fun mapC :: "('a \<Rightarrow> 'b completion) \<Rightarrow> 'a list \<Rightarrow> 'b list completion" where
  "mapC f [] = Returns []"
| "mapC f (a # as) = cbind (f a) (\<lambda>b. cbind (mapC f as) (\<lambda>bs. Returns (b # bs)))"

text \<open>\<open>deriveNonce\<close>, lines 124 to 145.\<close>

definition deriveNonce' ::
  "('k, 'p) primitives \<Rightarrow> HashInput \<Rightarrow> Group \<Rightarrow> Scalar \<Rightarrow> NetworkId \<Rightarrow> Scalar completion" where
  "deriveNonce' X message publicKey privateKey networkId =
     cbind (Scalar_toBits' X privateKey) (\<lambda>privateKeyBits.
     cbind (Field_fromBits' X privateKeyBits) (\<lambda>d.
     let id = (if networkId = ''mainnet'' then networkIdMainnet else networkIdTestnet);
         input = HashInput_append message
                   \<lparr>fields' = [x publicKey, y publicKey, d], packed = [(id, 8)]\<rparr>
     in cbind (packToFields' X input) (\<lambda>packedInput.
        cbind (mapC (Field_toBits' X) packedInput) (\<lambda>bitLists.
        let inputBits = concat bitLists
        in cbind (bitsToBytes' X inputBits) (\<lambda>inputBytes.
           cbind (blake2b' X inputBytes None 32) (\<lambda>bytes.
           let bytes = (if bytes = [] then bytes
                        else bytes[length bytes - 1 := (bytes ! (length bytes - 1)) AND 0x3f])
           in Scalar_fromBytes' X bytes))))))"

text \<open>\<open>hashMessage\<close>, lines 163 to 176.\<close>

definition hashMessage' ::
  "('k, 'p) primitives \<Rightarrow> HashInput \<Rightarrow> Group \<Rightarrow> Field \<Rightarrow> NetworkId \<Rightarrow> Scalar completion" where
  "hashMessage' X message publicKey r0 networkId =
     (let input = HashInput_append message
                    \<lparr>fields' = [x publicKey, y publicKey, r0], packed = []\<rparr>;
          prefix = (if networkId = ''mainnet'' then prefixes_signatureMainnet' X
                    else prefixes_signatureTestnet' X)
      in cbind (packToFields' X input) (\<lambda>packedInput. hashWithPrefix' X prefix packedInput))"

text \<open>
  \<open>sign\<close>, lines 96 to 109. No call of \<open>sign\<close> is under a \<open>try\<close>; line 103 is its one
  \<open>throw\<close> statement.
\<close>

definition sign' ::
  "('k, 'p) primitives \<Rightarrow> HashInput \<Rightarrow> PrivateKey \<Rightarrow> NetworkId \<Rightarrow> Signature completion" where
  "sign' X message privateKey networkId =
     cbind (Group_scale' X (Group_generatorMina' X) privateKey) (\<lambda>publicKey.
     cbind (deriveNonce' X message publicKey privateKey networkId) (\<lambda>kPrime.
     cbind (Scalar_equal' X kPrime 0) (\<lambda>isZero.
     if isZero then Throws (Error ''sign: derived nonce is 0'')
     else
       cbind (Group_scale' X (Group_generatorMina' X) kPrime) (\<lambda>R.
       let rx = x R; ry = y R
       in cbind (Field_isEven' X ry) (\<lambda>even_ry.
          cbind (if even_ry then Returns kPrime else Scalar_negate' X kPrime) (\<lambda>k.
          cbind (hashMessage' X message publicKey rx networkId) (\<lambda>e.
          cbind (Scalar_mul' X e privateKey) (\<lambda>product.
          cbind (Scalar_add' X k product) (\<lambda>s0.
          Returns \<lparr>r = rx, s = s0\<rparr>)))))))))"

text \<open>
  \<open>verify\<close>, lines 188 to 206. Lines 194 to 198 stand before the \<open>try\<close>; the \<open>try\<close> block
  holds \<open>Group.fromProjective\<close>, \<open>Field.isEven\<close> and, when the latter returns \<open>true\<close>,
  \<open>Field.equal\<close>; the \<open>catch\<close> returns \<open>false\<close> for every exception of the block.
\<close>

definition verify' ::
  "('k, 'p) primitives \<Rightarrow> Signature \<Rightarrow> HashInput \<Rightarrow> 'k \<Rightarrow> NetworkId \<Rightarrow> bool completion" where
  "verify' X signature message publicKey networkId =
     cbind (PublicKey_toGroup' X publicKey) (\<lambda>pk.
     cbind (hashMessage' X message pk (r signature) networkId) (\<lambda>e.
     cbind (Pallas_scale' X (Pallas_one' X) (s signature)) (\<lambda>sG.
     cbind (Group_toProjective' X pk) (\<lambda>pkProjective.
     cbind (Pallas_scale' X pkProjective e) (\<lambda>ePk.
     cbind (Pallas_sub' X sG ePk) (\<lambda>R.
     case cbind (Group_fromProjective' X R) (\<lambda>P.
            cbind (Field_isEven' X (y P)) (\<lambda>even_ry.
            if even_ry then Field_equal' X (x P) (r signature) else Returns False))
     of Throws err \<Rightarrow> Returns False
      | Returns b \<Rightarrow> Returns b))))))"

text \<open>\<open>signFieldElement\<close> and \<open>verifyFieldElement\<close>, lines 55 to 72.\<close>

definition signFieldElement' ::
  "('k, 'p) primitives \<Rightarrow> Field \<Rightarrow> PrivateKey \<Rightarrow> NetworkId \<Rightarrow> Signature completion" where
  "signFieldElement' X message privateKey networkId =
     sign' X \<lparr>fields' = [message], packed = []\<rparr> privateKey networkId"

definition verifyFieldElement' ::
  "('k, 'p) primitives \<Rightarrow> Signature \<Rightarrow> Field \<Rightarrow> 'k \<Rightarrow> NetworkId \<Rightarrow> bool completion" where
  "verifyFieldElement' X signature message publicKey networkId =
     verify' X signature \<lparr>fields' = [message], packed = []\<rparr> publicKey networkId"





text \<open>
  A \<open>backend\<close> as \<open>primitives\<close>: every import returns what the backend gives, and
  \<open>Group.fromProjective\<close> completes as it does there. On such primitives the functions
  above are the functions of the previous section (lemmas \<open>sign'_total\<close> and
  \<open>verify'_total\<close> below).
\<close>

definition total_primitives :: "('k, 'p) backend \<Rightarrow> ('k, 'p) primitives" where
  "total_primitives B =
     \<lparr>Field_isEven' = (\<lambda>a. Returns (Field_isEven B a)),
      Field_equal' = (\<lambda>a b. Returns (Field_equal B a b)),
      Field_toBits' = (\<lambda>a. Returns (Field_toBits B a)),
      Field_fromBits' = (\<lambda>bs. Returns (Field_fromBits B bs)),
      Scalar_equal' = (\<lambda>a b. Returns (Scalar_equal B a b)),
      Scalar_negate' = (\<lambda>a. Returns (Scalar_negate B a)),
      Scalar_add' = (\<lambda>a b. Returns (Scalar_add B a b)),
      Scalar_mul' = (\<lambda>a b. Returns (Scalar_mul B a b)),
      Scalar_toBits' = (\<lambda>a. Returns (Scalar_toBits B a)),
      Scalar_fromBytes' = (\<lambda>bs. Returns (Scalar_fromBytes B bs)),
      Group_generatorMina' = Group_generatorMina B,
      Group_scale' = (\<lambda>P a. Returns (Group_scale B P a)),
      Group_toProjective' = (\<lambda>P. Returns (Group_toProjective B P)),
      Group_fromProjective' = Group_fromProjective B,
      PublicKey_toGroup' = (\<lambda>k. Returns (PublicKey_toGroup B k)),
      Pallas_one' = Pallas_one B,
      Pallas_scale' = (\<lambda>P a. Returns (Pallas_scale B P a)),
      Pallas_sub' = (\<lambda>P Q. Returns (Pallas_sub B P Q)),
      packToFields' = (\<lambda>input. Returns (packToFields B input)),
      hashWithPrefix' = (\<lambda>pre fs. Returns (hashWithPrefix B pre fs)),
      prefixes_signatureMainnet' = prefixes_signatureMainnet B,
      prefixes_signatureTestnet' = prefixes_signatureTestnet B,
      bitsToBytes' = (\<lambda>bs. Returns (bitsToBytes B bs)),
      blake2b' = (\<lambda>input key outlen. Returns (blake2b B input key outlen))\<rparr>"

section \<open>The signature codec\<close>

text \<open>
  Lines 36 to 50 of \<open>signature.ts\<close> build the codec from combinators of the modules
  \<open>binable\<close> and \<open>base58\<close> and from constants of \<open>constants\<close> and \<open>curve-bigint\<close>, none
  of which is in the slice. A \<open>Binable\<close> writes a value to bytes and reads one from the
  front of a byte array; a \<open>Base58\<close> converts to and from text. The record \<open>codec\<close> holds
  what the codec imports as values: the binary encodings of \<open>Field\<close> and \<open>Scalar\<close>, their
  width in bytes, the two version tags and the checksum function.
\<close>

record 'a Binable =
  toBytes :: "'a \<Rightarrow> byte list"
  readBytes :: "byte list \<Rightarrow> ('a \<times> byte list) completion"

record 'a Base58 =
  toBase58 :: "'a \<Rightarrow> string"
  fromBase58 :: "string \<Rightarrow> 'a completion"

record codec =
  Field_Binable :: "Field Binable"
  Scalar_Binable :: "Scalar Binable"
  sizeInBytes :: nat
  versionNumbers_signature :: byte
  versionBytes_signature :: byte
  computeChecksum :: "byte list \<Rightarrow> byte list"

text \<open>
  Modelled from the spec: \<open>Binable.fromBytes\<close> (module \<open>binable\<close>). Section 4.6: decoding
  fails on input of the wrong length, so bytes left over after the value are an error.
\<close>

definition fromBytes :: "'a Binable \<Rightarrow> byte list \<Rightarrow> 'a completion" where
  "fromBytes A bytes =
     (case readBytes A bytes of
        Throws err \<Rightarrow> Throws err
      | Returns (v, rest) \<Rightarrow>
          if rest = [] then Returns v else Throws (Error ''fromBytes: input bytes left over''))"

text \<open>
  Modelled from the spec: \<open>tuple\<close> (module \<open>binable\<close>). Section 4.6: the binary form is
  a fixed tuple, the encoding of \<open>r\<close> followed by the encoding of \<open>s\<close>.
\<close>

definition tuple :: "'a Binable \<Rightarrow> 'b Binable \<Rightarrow> ('a \<times> 'b) Binable" where
  "tuple A B =
     \<lparr>toBytes = (\<lambda>(a, b). toBytes A a @ toBytes B b),
      readBytes = (\<lambda>bytes.
        case readBytes A bytes of
          Throws err \<Rightarrow> Throws err
        | Returns (a, rest) \<Rightarrow>
            (case readBytes B rest of
               Throws err \<Rightarrow> Throws err
             | Returns (b, rest') \<Rightarrow> Returns ((a, b), rest')))\<rparr>"

text \<open>
  Modelled from the spec: \<open>withVersionNumber\<close> (module \<open>binable\<close>). Section 4.6: the
  binary form carries a version tag, a single fixed integer; a different tag is a
  decoding error.
\<close>

definition withVersionNumber :: "'a Binable \<Rightarrow> byte \<Rightarrow> 'a Binable" where
  "withVersionNumber A versionNumber =
     \<lparr>toBytes = (\<lambda>t. versionNumber # toBytes A t),
      readBytes = (\<lambda>bytes.
        case bytes of
          [] \<Rightarrow> Throws (Error ''readBytes: version number missing'')
        | version # rest \<Rightarrow>
            if version \<noteq> versionNumber
            then Throws (Error ''readBytes: version number does not match'')
            else readBytes A rest)\<rparr>"

text \<open>
  Modelled from the spec: the base58 alphabet (module \<open>base58\<close>). Section 4.6 names the
  text form base58-check; this is the alphabet of that encoding.
\<close>

definition alphabet :: string where
  "alphabet = ''123456789ABCDEFGHJKLMNPQRSTUVWXYZabcdefghijkmnopqrstuvwxyz''"

text \<open>
  Modelled from the spec: the position of a character in the alphabet (module \<open>base58\<close>),
  \<open>None\<close> for a character outside it.
\<close>

fun index_of :: "'a \<Rightarrow> 'a list \<Rightarrow> nat option" where
  "index_of c [] = None"
| "index_of c (d # ds) = (if c = d then Some 0 else map_option Suc (index_of c ds))"

text \<open>
  Modelled from the spec: the change of base inside base58 (module \<open>base58\<close>): the number
  that a list of digits writes in base \<open>b\<close>, most significant digit first.
\<close>

definition digits_value :: "int \<Rightarrow> int list \<Rightarrow> int" where
  "digits_value b ds = foldl (\<lambda>acc d. acc * b + d) 0 ds"

text \<open>
  Modelled from the spec: the change of base inside base58 (module \<open>base58\<close>): the digits
  of a number in base \<open>b\<close>, most significant first, none for zero.
\<close>

function toDigits :: "int \<Rightarrow> int \<Rightarrow> int list" where
  "toDigits b n = (if n \<le> 0 \<or> b < 2 then [] else toDigits b (n div b) @ [n mod b])"
  by pat_completeness auto
termination
  by (relation "measure (\<lambda>(b, n). nat n)") (auto intro: int_div_less_self)

text \<open>
  Modelled from the spec: the change of base inside base58 (module \<open>base58\<close>): leading
  zero digits are counted and written back as leading zero digits of the other base.
\<close>

definition leadingZeros :: "int list \<Rightarrow> nat" where
  "leadingZeros ds = length (takeWhile (\<lambda>d. d = 0) ds)"

text \<open>
  Modelled from the spec: \<open>changeBase\<close> with the leading zeros kept (module \<open>base58\<close>).
\<close>

definition changeBase :: "int \<Rightarrow> int \<Rightarrow> int list \<Rightarrow> int list" where
  "changeBase b b' ds = replicate (leadingZeros ds) 0 @ toDigits b' (digits_value b ds)"

text \<open>
  Modelled from the spec: \<open>toBase58\<close> on bytes (module \<open>base58\<close>): the bytes as base-256
  digits, changed to base 58 and written in the alphabet.
\<close>

definition base58_encode :: "byte list \<Rightarrow> string" where
  "base58_encode bytes = map (\<lambda>d. alphabet ! nat d) (changeBase 256 58 (map uint bytes))"

text \<open>
  Modelled from the spec: the digits of a base58 text (module \<open>base58\<close>), \<open>None\<close> when a
  character is not of the alphabet.
\<close>

fun base58_digits :: "string \<Rightarrow> int list option" where
  "base58_digits [] = Some []"
| "base58_digits (c # cs) =
     (case index_of c alphabet of
        None \<Rightarrow> None
      | Some d \<Rightarrow> map_option ((#) (int d)) (base58_digits cs))"

text \<open>
  Modelled from the spec: \<open>fromBase58\<close> to bytes (module \<open>base58\<close>); a character outside
  the alphabet is a decoding error.
\<close>

definition base58_decode :: "string \<Rightarrow> byte list completion" where
  "base58_decode str =
     (case base58_digits str of
        None \<Rightarrow> Throws (Error ''fromBase58: invalid character'')
      | Some ds \<Rightarrow> Returns (map word_of_int (changeBase 58 256 ds)))"

text \<open>
  Modelled from the spec: \<open>toBase58Check\<close> (module \<open>base58\<close>). Section 4.6: base58-check
  with a fixed version byte: the version byte, the payload and the four checksum bytes
  of the two.
\<close>

definition toBase58Check :: "codec \<Rightarrow> byte list \<Rightarrow> byte \<Rightarrow> string" where
  "toBase58Check C input versionByte =
     (let withVersion = versionByte # input;
          checksum = computeChecksum C withVersion
      in base58_encode (withVersion @ checksum))"

text \<open>
  Modelled from the spec: \<open>fromBase58Check\<close> (module \<open>base58\<close>). Section 4.6: a bad
  checksum and a wrong version byte are decoding errors.
\<close>

definition fromBase58Check :: "codec \<Rightarrow> string \<Rightarrow> byte \<Rightarrow> byte list completion" where
  "fromBase58Check C str versionByte =
     (case base58_decode str of
        Throws err \<Rightarrow> Throws err
      | Returns bytes \<Rightarrow>
          (let checksum = drop (length bytes - 4) bytes;
               originalBytes = take (length bytes - 4) bytes
           in if checksum \<noteq> computeChecksum C originalBytes
              then Throws (Error ''fromBase58Check: invalid checksum'')
              else (case originalBytes of
                      [] \<Rightarrow> Throws (Error ''fromBase58Check: version byte missing'')
                    | v # payload \<Rightarrow>
                        if v \<noteq> versionByte
                        then Throws (Error ''fromBase58Check: version byte does not match'')
                        else Returns payload)))"

text \<open>
  Modelled from the spec: \<open>base58\<close> (module \<open>base58\<close>). Section 4.6: the text form is the
  base58-check encoding of the binary form.
\<close>

definition base58 :: "codec \<Rightarrow> 'a Binable \<Rightarrow> byte \<Rightarrow> 'a Base58" where
  "base58 C binable versionByte =
     \<lparr>toBase58 = (\<lambda>t. toBase58Check C (toBytes binable t) versionByte),
      fromBase58 = (\<lambda>str.
        case fromBase58Check C str versionByte of
          Throws err \<Rightarrow> Throws err
        | Returns bytes \<Rightarrow> fromBytes binable bytes)\<rparr>"

text \<open>\<open>BinableSignature\<close> and \<open>BinableBase58\<close>, lines 36 to 40.\<close>

definition BinableSignature :: "codec \<Rightarrow> (Field \<times> Scalar) Binable" where
  "BinableSignature C =
     withVersionNumber (tuple (Field_Binable C) (Scalar_Binable C)) (versionNumbers_signature C)"

definition BinableBase58 :: "codec \<Rightarrow> (Field \<times> Scalar) Base58" where
  "BinableBase58 C = base58 C (BinableSignature C) (versionBytes_signature C)"

text \<open>
  \<open>Signature.toBase58\<close> and \<open>Signature.fromBase58\<close>, lines 42 to 50. \<open>fromBase58\<close> has no
  handler: an exception of the decoder passes through.
\<close>

definition Signature_toBase58 :: "codec \<Rightarrow> Signature \<Rightarrow> string" where
  "Signature_toBase58 C sg = toBase58 (BinableBase58 C) (r sg, s sg)"

definition Signature_fromBase58 :: "codec \<Rightarrow> string \<Rightarrow> Signature completion" where
  "Signature_fromBase58 C signatureBase58 =
     (case fromBase58 (BinableBase58 C) signatureBase58 of
        Throws err \<Rightarrow> Throws err
      | Returns (r0, s0) \<Rightarrow> Returns \<lparr>r = r0, s = s0\<rparr>)"

text \<open>
  Modelled from the spec: the binary encoding of a field element (modules \<open>field-bigint\<close>
  and \<open>binable\<close>): an unsigned integer in a fixed number of bytes, least significant
  byte first.
\<close>

fun bigIntToBytes :: "nat \<Rightarrow> int \<Rightarrow> byte list" where
  "bigIntToBytes 0 v = []"
| "bigIntToBytes (Suc n) v = word_of_int (v mod 256) # bigIntToBytes n (v div 256)"

text \<open>
  Modelled from the spec: the unsigned integer that bytes write, least significant byte
  first (modules \<open>field-bigint\<close> and \<open>binable\<close>).
\<close>

fun bytesToBigInt :: "byte list \<Rightarrow> int" where
  "bytesToBigInt [] = 0"
| "bytesToBigInt (b # bs) = uint b + 256 * bytesToBigInt bs"

text \<open>
  Modelled from the spec: the \<open>Binable\<close> of a field of a given order (modules
  \<open>field-bigint\<close> and \<open>binable\<close>). Section 4.6: too few bytes and a value that is no
  element of the field are decoding errors.
\<close>

definition BinableBigint :: "nat \<Rightarrow> int \<Rightarrow> int Binable" where
  "BinableBigint width modulus =
     \<lparr>toBytes = bigIntToBytes width,
      readBytes = (\<lambda>bytes.
        if length bytes < width then Throws (Error ''readBytes: not enough bytes'')
        else (let v = bytesToBigInt (take width bytes)
              in if v < modulus then Returns (v, drop width bytes)
                 else Throws (Error ''readBytes: value out of range'')))\<rparr>"

section \<open>The algorithms as the specification words them\<close>

text \<open>
  The specification's \<open>NetworkId\<close> is an enumeration of two values; \<open>networkId_of\<close> gives
  the string the TypeScript code receives for each.
\<close>

datatype NetworkId_spec = Mainnet | Testnet

definition networkId_of :: "NetworkId_spec \<Rightarrow> NetworkId" where
  "networkId_of nid = (case nid of Mainnet \<Rightarrow> ''mainnet'' | Testnet \<Rightarrow> ''testnet'')"

text \<open>
  Section 4.2 of the specification, steps 1 to 7: the coordinates of the public key, the
  private key re-encoded as a base-field element, the 8-bit network code, the extended
  message, the packing to bytes, the 32-byte hash, and the mask \<open>0x3f\<close> on byte 31 before
  the scalar decoder reads the bytes.
\<close>

definition networkCode_spec :: "NetworkId_spec \<Rightarrow> int" where
  "networkCode_spec nid = (case nid of Mainnet \<Rightarrow> 0x01 | Testnet \<Rightarrow> 0x00)"

definition deriveNonce_spec ::
  "('k, 'p) backend \<Rightarrow> HashInput \<Rightarrow> Group \<Rightarrow> Scalar \<Rightarrow> NetworkId_spec \<Rightarrow> Scalar" where
  "deriveNonce_spec B message publicKey privateKey nid =
     (let d = Field_fromBits B (Scalar_toBits B privateKey);
          extended = \<lparr>fields' = fields' message @ [x publicKey, y publicKey, d],
                      packed = packed message @ [(networkCode_spec nid, 8)]\<rparr>;
          elements = packToFields B extended;
          inputBytes = bitsToBytes B (concat (map (Field_toBits B) elements));
          digest = blake2b B inputBytes None 32;
          masked = digest[31 := (digest ! 31) AND 0x3f]
      in Scalar_fromBytes B masked)"

text \<open>
  Section 4.3 of the specification: the field list \<open>[x, y, r]\<close> appended, the packing, the
  prefix chosen by the network id (mainnet, or testnet otherwise), and the hash output
  relabelled as a scalar with its value unchanged.
\<close>

definition reinterpret_as_scalar :: "Field \<Rightarrow> Scalar" where
  "reinterpret_as_scalar h = h"

definition hashMessage_spec ::
  "('k, 'p) backend \<Rightarrow> HashInput \<Rightarrow> Group \<Rightarrow> Field \<Rightarrow> NetworkId \<Rightarrow> Scalar" where
  "hashMessage_spec B message publicKey r0 networkId =
     (let extended = \<lparr>fields' = fields' message @ [x publicKey, y publicKey, r0],
                      packed = packed message\<rparr>;
          h = (if networkId = ''mainnet''
               then hashWithPrefix B (prefixes_signatureMainnet B) (packToFields B extended)
               else hashWithPrefix B (prefixes_signatureTestnet B) (packToFields B extended))
      in reinterpret_as_scalar h)"

section \<open>The contract of the imported primitives\<close>

text \<open>
  What the protocol needs of the arithmetic it imports, for a base field of order \<open>p\<close> and
  a scalar field of order \<open>q\<close> (section 6 of the specification). Projective points are
  compared through \<open>Group.fromProjective\<close>, since one point has many projective
  representatives. \<open>generator_multiple B a\<close> is \<open>a \<cdot> G\<close> in projective form.
  The scalar operations are arithmetic modulo \<open>q\<close> on canonical representatives; the
  scalar decoder returns a canonical representative for 32 bytes whose last byte has its
  top two bits clear, and the hash returns one always; the affine and the
  projective scaling of the generator agree; scaling and subtraction act on multiples of
  the generator as the group law says (the generator has order \<open>q\<close>); and a non-zero
  multiple and its negative share their x-coordinate while at most one of their
  y-coordinates is odd.
\<close>

definition generator_multiple :: "('k, 'p) backend \<Rightarrow> Scalar \<Rightarrow> 'p" where
  "generator_multiple B a = Pallas_scale B (Pallas_one B) a"

definition same_point :: "('k, 'p) backend \<Rightarrow> 'p \<Rightarrow> 'p \<Rightarrow> bool" where
  "same_point B P Q \<longleftrightarrow> Group_fromProjective B P = Group_fromProjective B Q"

definition scalar_contract :: "int \<Rightarrow> int \<Rightarrow> ('k, 'p) backend \<Rightarrow> bool" where
  "scalar_contract p q B \<longleftrightarrow>
     (\<forall>a\<in>{0..<q}. \<forall>b\<in>{0..<q}. Scalar_add B a b = (a + b) mod q) \<and>
     (\<forall>e\<in>{0..<p}. \<forall>a\<in>{0..<q}. Scalar_mul B e a = (e * a) mod q) \<and>
     (\<forall>a\<in>{0..<q}. Scalar_negate B a = (- a) mod q) \<and>
     (\<forall>a\<in>{0..<q}. Scalar_equal B a 0 \<longleftrightarrow> a = 0) \<and>
     (\<forall>bs. length bs = 32 \<longrightarrow> bs ! 31 \<le> 0x3f \<longrightarrow> Scalar_fromBytes B bs \<in> {0..<q})"

definition field_contract :: "int \<Rightarrow> ('k, 'p) backend \<Rightarrow> bool" where
  "field_contract p B \<longleftrightarrow>
     (\<forall>u. Field_equal B u u) \<and>
     (\<forall>pre fs. hashWithPrefix B pre fs \<in> {0..<p})"

definition curve_contract :: "int \<Rightarrow> int \<Rightarrow> ('k, 'p) backend \<Rightarrow> bool" where
  "curve_contract p q B \<longleftrightarrow>
     (\<forall>a\<in>{1..<q}. Group_fromProjective B (generator_multiple B a) =
                      Returns (Group_scale B (Group_generatorMina B) a)) \<and>
     (\<forall>a\<in>{1..<q}. same_point B (Group_toProjective B (Group_scale B (Group_generatorMina B) a))
                                 (generator_multiple B a)) \<and>
     (\<forall>a\<in>{0..<q}. \<forall>e\<in>{0..<p}. \<forall>P. same_point B P (generator_multiple B a) \<longrightarrow>
         same_point B (Pallas_scale B P e) (generator_multiple B ((a * e) mod q))) \<and>
     (\<forall>a\<in>{0..<q}. \<forall>b\<in>{0..<q}. \<forall>P Q.
         same_point B P (generator_multiple B a) \<longrightarrow> same_point B Q (generator_multiple B b) \<longrightarrow>
         same_point B (Pallas_sub B P Q) (generator_multiple B ((a - b) mod q))) \<and>
     (\<forall>a\<in>{1..<q}.
         x (Group_scale B (Group_generatorMina B) ((- a) mod q)) =
           x (Group_scale B (Group_generatorMina B) a) \<and>
         (Field_isEven B (y (Group_scale B (Group_generatorMina B) a)) \<or>
          Field_isEven B (y (Group_scale B (Group_generatorMina B) ((- a) mod q)))))"

text \<open>The byte hash returns the 32 bytes it is asked for.\<close>

definition digest_contract :: "('k, 'p) backend \<Rightarrow> bool" where
  "digest_contract B \<longleftrightarrow> (\<forall>input. length (blake2b B input None 32) = 32)"

definition primitives_contract :: "int \<Rightarrow> int \<Rightarrow> ('k, 'p) backend \<Rightarrow> bool" where
  "primitives_contract p q B \<longleftrightarrow>
     scalar_contract p q B \<and> field_contract p B \<and> curve_contract p q B \<and> digest_contract B"

text \<open>
  The contract of the codec's imports, for fields of orders \<open>p\<close> and \<open>q\<close>: each
  binary encoding reads back what it wrote, in front of any remaining bytes, and reads
  nothing else; encodings have the fixed width; the checksum has four bytes.
\<close>

definition binable_contract :: "('a \<Rightarrow> bool) \<Rightarrow> 'a Binable \<Rightarrow> bool" where
  "binable_contract valid A \<longleftrightarrow>
     (\<forall>v rest. valid v \<longrightarrow> readBytes A (toBytes A v @ rest) = Returns (v, rest)) \<and>
     (\<forall>bytes v rest. readBytes A bytes = Returns (v, rest) \<longrightarrow>
        valid v \<and> bytes = toBytes A v @ rest)"

definition codec_contract :: "int \<Rightarrow> int \<Rightarrow> codec \<Rightarrow> bool" where
  "codec_contract p q C \<longleftrightarrow>
     binable_contract (\<lambda>v. v \<in> {0..<p}) (Field_Binable C) \<and>
     binable_contract (\<lambda>v. v \<in> {0..<q}) (Scalar_Binable C) \<and>
     (\<forall>v\<in>{0..<p}. length (toBytes (Field_Binable C) v) = sizeInBytes C) \<and>
     (\<forall>v\<in>{0..<q}. length (toBytes (Scalar_Binable C) v) = sizeInBytes C) \<and>
     (\<forall>bytes. length (computeChecksum C bytes) = 4)"

section \<open>A small instance of the primitives\<close>

text \<open>
  An instance on which every definition above can be evaluated: the curve
  \<open>y\<^sup>2 = x\<^sup>3 + 3\<close> over the field of order 7, a group of prime order 13 generated by
  \<open>(1, 2)\<close>, with affine addition for the group law, compressed keys \<open>(x, isOdd)\<close>,
  little-endian bits and bytes, and checksums in place of the two hash functions.
\<close>

type_synonym toy_point = "Group option"

definition toy_inv :: "int \<Rightarrow> int" where
  "toy_inv a = (a ^ 5) mod 7"

definition toy_add :: "toy_point \<Rightarrow> toy_point \<Rightarrow> toy_point" where
  "toy_add P Q =
     (case P of None \<Rightarrow> Q | Some A \<Rightarrow>
        (case Q of None \<Rightarrow> P | Some C \<Rightarrow>
           if x A = x C then
             (if (y A + y C) mod 7 = 0 then None
              else (let l = (3 * x A * x A * toy_inv (2 * y A)) mod 7;
                        x3 = (l * l - 2 * x A) mod 7;
                        y3 = (l * (x A - x3) - y A) mod 7
                    in Some \<lparr>x = x3, y = y3\<rparr>))
           else (let l = ((y C - y A) * toy_inv (x C - x A)) mod 7;
                     x3 = (l * l - x A - x C) mod 7;
                     y3 = (l * (x A - x3) - y A) mod 7
                 in Some \<lparr>x = x3, y = y3\<rparr>)))"

definition toy_neg :: "toy_point \<Rightarrow> toy_point" where
  "toy_neg P = (case P of None \<Rightarrow> None | Some A \<Rightarrow> Some \<lparr>x = x A, y = (- y A) mod 7\<rparr>)"

fun toy_mul :: "nat \<Rightarrow> toy_point \<Rightarrow> toy_point" where
  "toy_mul 0 P = None"
| "toy_mul (Suc n) P = toy_add P (toy_mul n P)"

definition toy_affine :: "toy_point \<Rightarrow> Group" where
  "toy_affine P = (case P of None \<Rightarrow> \<lparr>x = 0, y = 0\<rparr> | Some A \<Rightarrow> A)"

fun toy_bits :: "nat \<Rightarrow> int \<Rightarrow> bool list" where
  "toy_bits 0 v = []"
| "toy_bits (Suc n) v = odd v # toy_bits n (v div 2)"

fun toy_fromBits :: "bool list \<Rightarrow> int" where
  "toy_fromBits [] = 0"
| "toy_fromBits (b # bs) = (if b then 1 else 0) + 2 * toy_fromBits bs"

fun toy_bitsToBytes :: "bool list \<Rightarrow> byte list" where
  "toy_bitsToBytes [] = []"
| "toy_bitsToBytes (b # bs) = word_of_int (toy_fromBits (take 8 (b # bs))) # toy_bitsToBytes (drop 7 bs)"

fun toy_stretch :: "nat \<Rightarrow> byte \<Rightarrow> byte list" where
  "toy_stretch 0 b = []"
| "toy_stretch (Suc n) b = (b + of_nat n) # toy_stretch n b"

fun toy_le :: "byte list \<Rightarrow> int" where
  "toy_le [] = 0"
| "toy_le (b # bs) = uint b + 256 * toy_le bs"

definition toy_decompress :: "Field \<times> bool \<Rightarrow> Group" where
  "toy_decompress k =
     (case filter (\<lambda>v. (v * v - (fst k ^ 3 + 3)) mod 7 = 0 \<and> odd v = snd k) [0, 1, 2, 3, 4, 5, 6] of
        [] \<Rightarrow> \<lparr>x = fst k, y = 0\<rparr>
      | v # _ \<Rightarrow> \<lparr>x = fst k, y = v\<rparr>)"

definition toy :: "(Field \<times> bool, toy_point) backend" where
  "toy =
     \<lparr>Field_isEven = even,
      Field_equal = (\<lambda>a b. (a - b) mod 7 = 0),
      Field_toBits = toy_bits 3,
      Field_fromBits = (\<lambda>bs. toy_fromBits bs mod 7),
      Scalar_equal = (\<lambda>a b. (a - b) mod 13 = 0),
      Scalar_negate = (\<lambda>a. (- a) mod 13),
      Scalar_add = (\<lambda>a b. (a + b) mod 13),
      Scalar_mul = (\<lambda>a b. (a * b) mod 13),
      Scalar_toBits = toy_bits 4,
      Scalar_fromBytes = (\<lambda>bs. toy_le bs mod 13),
      Group_generatorMina = \<lparr>x = 1, y = 2\<rparr>,
      Group_scale = (\<lambda>A k. toy_affine (toy_mul (nat k) (Some A))),
      Group_toProjective = Some,
      Group_fromProjective =
        (\<lambda>P. case P of None \<Rightarrow> Throws (Error ''Group.fromProjective: point is infinity'')
              | Some A \<Rightarrow> Returns A),
      PublicKey_toGroup = toy_decompress,
      Pallas_one = Some \<lparr>x = 1, y = 2\<rparr>,
      Pallas_scale = (\<lambda>P k. toy_mul (nat k) P),
      Pallas_sub = (\<lambda>P Q. toy_add P (toy_neg Q)),
      packToFields = (\<lambda>input. fields' input @ map fst (packed input)),
      hashWithPrefix = (\<lambda>pre fs. (int (sum_list (map of_char pre)) + sum_list fs) mod 7),
      prefixes_signatureMainnet = ''signature, mainnet'',
      prefixes_signatureTestnet = ''signature, testnet'',
      bitsToBytes = toy_bitsToBytes,
      blake2b = (\<lambda>input key outlen. toy_stretch outlen (sum_list input))\<rparr>"




text \<open>
  A codec for the same two fields: one byte for each element and a checksum of sums.
\<close>

definition toy_codec :: codec where
  "toy_codec =
     \<lparr>Field_Binable = BinableBigint 1 7,
      Scalar_Binable = BinableBigint 1 13,
      sizeInBytes = 1,
      versionNumbers_signature = 1,
      versionBytes_signature = 0x9a,
      computeChecksum =
        (\<lambda>bytes. [sum_list bytes, of_nat (length bytes), 0x5a, sum_list bytes + 1])\<rparr>"

section \<open>Properties\<close>

subsection \<open>The small instance meets the contract\<close>

lemma rng13: "{0..<13::int} = {0,1,2,3,4,5,6,7,8,9,10,11,12}"
  by (auto; presburger)
lemma rng13': "{1..<13::int} = {1,2,3,4,5,6,7,8,9,10,11,12}"
  by (auto; presburger)
lemma rng7: "{0..<7::int} = {0,1,2,3,4,5,6}"
  by (auto; presburger)

lemma toy_scalar: "scalar_contract 7 13 toy"
  by (simp add: scalar_contract_def toy_def)

lemma toy_field: "field_contract 7 toy"
  by (simp add: field_contract_def toy_def)

lemma toy_same_point: "same_point toy P Q \<longleftrightarrow> P = Q"
  by (simp add: same_point_def toy_def split: option.splits)

lemma toy_c1: "\<forall>a\<in>{1..<13}. Group_fromProjective toy (generator_multiple toy a) =
                      Returns (Group_scale toy (Group_generatorMina toy) a)"
  unfolding rng13' by code_simp

lemma toy_c2: "\<forall>a\<in>{1..<13}. Group_toProjective toy (Group_scale toy (Group_generatorMina toy) a) =
                                 (generator_multiple toy a)"
  unfolding rng13' by code_simp

lemma toy_c3: "\<forall>a\<in>{0..<13}. \<forall>e\<in>{0..<7}. 
         (Pallas_scale toy (generator_multiple toy a) e) = (generator_multiple toy ((a * e) mod 13))"
  unfolding rng13 rng7 by code_simp

lemma toy_c4: "\<forall>a\<in>{0..<13}. \<forall>b\<in>{0..<13}. 
         (Pallas_sub toy (generator_multiple toy a) (generator_multiple toy b)) = (generator_multiple toy ((a - b) mod 13))"
  unfolding rng13 by code_simp

lemma toy_c5: "\<forall>a\<in>{1..<13}.
         x (Group_scale toy (Group_generatorMina toy) ((- a) mod 13)) =
           x (Group_scale toy (Group_generatorMina toy) a) \<and>
         (Field_isEven toy (y (Group_scale toy (Group_generatorMina toy) a)) \<or>
          Field_isEven toy (y (Group_scale toy (Group_generatorMina toy) ((- a) mod 13))))"
  unfolding rng13' by code_simp

lemma toy_curve: "curve_contract 7 13 toy"
  unfolding curve_contract_def toy_same_point
  using toy_c1 toy_c2 toy_c3 toy_c4 toy_c5 by simp

lemma length_toy_stretch: "length (toy_stretch n b) = n"
  by (induction n) simp_all

lemma toy_digest: "digest_contract toy"
  by (simp add: digest_contract_def toy_def length_toy_stretch)

lemma toy_contract: "primitives_contract 7 13 toy"
  by (simp add: primitives_contract_def toy_scalar toy_field toy_curve toy_digest)

subsection \<open>Unfolding the source functions\<close>

lemma verify_unfold:
  "verify B sg m pub n =
     (case Group_fromProjective B (verify_R B sg m pub n) of
        Throws err \<Rightarrow> Returns False
      | Returns P \<Rightarrow> Returns (Field_isEven B (y P) \<and> Field_equal B (x P) (r sg)))"
  by (simp add: verify_def verify_R_def Let_def split: completion.splits)

lemma deriveNonce_unfold:
  "deriveNonce B m pk sk n =
     (let bytes = blake2b B (bitsToBytes B (concat (map (Field_toBits B)
                    (packToFields B (deriveNonce_input B m pk sk n))))) None 32
      in Scalar_fromBytes B
           (if bytes = [] then bytes
            else bytes[length bytes - 1 := (bytes ! (length bytes - 1)) AND 0x3f]))"
  by (simp add: deriveNonce_def deriveNonce_input_def Let_def)

lemma sign_unfold:
  "sign B m sk n =
     (if Scalar_equal B (sign_kPrime B m sk n) 0 then Throws (Error ''sign: derived nonce is 0'')
      else Returns \<lparr>r = x (sign_R B m sk n),
                    s = Scalar_add B (sign_k B m sk n) (Scalar_mul B (sign_e B m sk n) sk)\<rparr>)"
  by (simp add: sign_def sign_kPrime_def sign_publicKey_def sign_R_def sign_k_def sign_e_def Let_def)

lemma deriveNonce_range:
  assumes "scalar_contract p q B" and "digest_contract B"
  shows "deriveNonce B m pk sk n \<in> {0..<q}"
proof -
  let ?bytes = "blake2b B (bitsToBytes B (concat (map (Field_toBits B)
                  (packToFields B (deriveNonce_input B m pk sk n))))) None 32"
  let ?masked = "?bytes[31 := (?bytes ! 31) AND 0x3f]"
  from assms(2) have len: "length ?bytes = 32"
    by (simp add: digest_contract_def)
  then have ne: "?bytes \<noteq> []" by auto
  have eq: "deriveNonce B m pk sk n = Scalar_fromBytes B ?masked"
    using len ne by (simp add: deriveNonce_unfold Let_def)
  have "length ?masked = 32" using len by simp
  moreover have "?masked ! 31 \<le> 0x3f" using len by (simp add: word_and_le1)
  ultimately show ?thesis
    using assms(1) unfolding eq scalar_contract_def by blast
qed

lemma hashMessage_range:
  assumes "field_contract p B"
  shows "hashMessage B m pk r0 n \<in> {0..<p}"
  using assms by (simp add: field_contract_def hashMessage_def Let_def)

lemma cancel_challenge:
  fixes k :: int
  assumes "0 \<le> k" "k < q"
  shows "((k + (e * sk) mod q) mod q - (sk * e) mod q) mod q = k"
proof -
  have "((k + (e * sk) mod q) mod q - (sk * e) mod q) mod q = (k + e * sk - sk * e) mod q"
    by (simp add: mod_simps)
  also have "\<dots> = k mod q" by (simp add: mult.commute)
  also have "\<dots> = k" using assms by simp
  finally show ?thesis .
qed

lemma verify_R_of_sign:
  assumes contract: "primitives_contract p q B"
    and sk: "sk \<in> {1..<q}"
    and pub: "PublicKey_toGroup B pub = sign_publicKey B sk"
    and nz: "\<not> Scalar_equal B (sign_kPrime B m sk n) 0"
    and sg: "sg = \<lparr>r = x (sign_R B m sk n),
                   s = Scalar_add B (sign_k B m sk n) (Scalar_mul B (sign_e B m sk n) sk)\<rparr>"
  shows "Group_fromProjective B (verify_R B sg m pub n) =
           Returns (Group_scale B (Group_generatorMina B) (sign_k B m sk n))"
    and "x (Group_scale B (Group_generatorMina B) (sign_k B m sk n)) = r sg"
    and "Field_isEven B (y (Group_scale B (Group_generatorMina B) (sign_k B m sk n)))"
proof -
  let ?G = "Group_generatorMina B"
  let ?k' = "sign_kPrime B m sk n"
  let ?k = "sign_k B m sk n"
  let ?e = "sign_e B m sk n"
  from contract have sc: "scalar_contract p q B" and fc: "field_contract p B"
    and cc: "curve_contract p q B" and dc: "digest_contract B"
    by (simp_all add: primitives_contract_def)
  from sk have q1: "1 < q" and sk0: "sk \<in> {0..<q}" by auto
  have k'0: "?k' \<in> {0..<q}"
    unfolding sign_kPrime_def by (rule deriveNonce_range [OF sc dc])
  with nz sc have k'nz: "?k' \<noteq> 0"
    unfolding scalar_contract_def by blast
  with k'0 have k'1: "?k' \<in> {1..<q}" by auto
  have neg: "Scalar_negate B ?k' = (- ?k') mod q"
    using sc k'0 unfolding scalar_contract_def by blast
  have negr: "(- ?k') mod q \<in> {1..<q}"
  proof -
    have "(- ?k') mod q = q - ?k'"
      using k'1 by (simp add: zmod_zminus1_eq_if)
    then show ?thesis using k'1 by auto
  qed
  have k1: "?k \<in> {1..<q}"
    using k'1 negr neg by (simp add: sign_k_def)
  then have k0: "?k \<in> {0..<q}" by auto
  have e0: "?e \<in> {0..<p}"
    unfolding sign_e_def by (rule hashMessage_range [OF fc])
  have mul: "Scalar_mul B ?e sk = (?e * sk) mod q"
    using sc e0 sk0 unfolding scalar_contract_def by blast
  have mulr: "(?e * sk) mod q \<in> {0..<q}" using q1 by simp
  have s_eq: "s sg = (?k + (?e * sk) mod q) mod q"
    using sc k0 mulr unfolding scalar_contract_def sg mul by simp
  have sr: "s sg \<in> {0..<q}" unfolding s_eq using q1 by simp
  have e_eq: "hashMessage B m (PublicKey_toGroup B pub) (r sg) n = ?e"
    by (simp add: pub sg sign_e_def)
  have R_eq: "verify_R B sg m pub n =
      Pallas_sub B (generator_multiple B (s sg))
        (Pallas_scale B (Group_toProjective B (sign_publicKey B sk)) ?e)"
    using e_eq by (simp add: verify_R_def Let_def generator_multiple_def pub)
  have pk_pt: "same_point B (Group_toProjective B (sign_publicKey B sk)) (generator_multiple B sk)"
    using cc sk unfolding curve_contract_def sign_publicKey_def by blast
  have epk: "same_point B (Pallas_scale B (Group_toProjective B (sign_publicKey B sk)) ?e)
               (generator_multiple B ((sk * ?e) mod q))"
    using cc sk0 e0 pk_pt unfolding curve_contract_def by blast
  have sG: "same_point B (generator_multiple B (s sg)) (generator_multiple B (s sg))"
    by (simp add: same_point_def)
  have "same_point B (verify_R B sg m pub n)
          (generator_multiple B ((s sg - (sk * ?e) mod q) mod q))"
    unfolding R_eq
    using cc sr mulr epk sG q1 unfolding curve_contract_def
    by (meson atLeastLessThan_iff pos_mod_bound pos_mod_sign zero_less_one less_trans)
  moreover have "(s sg - (sk * ?e) mod q) mod q = ?k"
    unfolding s_eq using k0 by (intro cancel_challenge) auto
  ultimately have "Group_fromProjective B (verify_R B sg m pub n) =
      Group_fromProjective B (generator_multiple B ?k)"
    by (simp add: same_point_def)
  also have "\<dots> = Returns (Group_scale B ?G ?k)"
    using cc k1 unfolding curve_contract_def by blast
  finally show "Group_fromProjective B (verify_R B sg m pub n) = Returns (Group_scale B ?G ?k)" .
  have par: "x (Group_scale B ?G ((- ?k') mod q)) = x (Group_scale B ?G ?k') \<and>
             (Field_isEven B (y (Group_scale B ?G ?k')) \<or>
              Field_isEven B (y (Group_scale B ?G ((- ?k') mod q))))"
    using cc k'1 unfolding curve_contract_def by blast
  show "x (Group_scale B ?G ?k) = r sg"
    using par by (simp add: sg sign_k_def sign_R_def neg)
  show "Field_isEven B (y (Group_scale B ?G ?k))"
    using par by (auto simp add: sign_k_def sign_R_def neg)
qed

subsection \<open>Imported calls that may throw\<close>

lemma cbind_Returns [simp]: "cbind (Returns v) f = f v"
  by (simp add: cbind_def)

lemma cbind_Throws [simp]: "cbind (Throws err) f = Throws err"
  by (simp add: cbind_def)

lemma mapC_Returns: "mapC (\<lambda>a. Returns (g a)) as = Returns (map g as)"
  by (induction as) simp_all

lemma total_primitives_sel:
  "Field_isEven' (total_primitives B) a = Returns (Field_isEven B a)"
  "Field_equal' (total_primitives B) a b = Returns (Field_equal B a b)"
  "Field_toBits' (total_primitives B) = (\<lambda>a. Returns (Field_toBits B a))"
  "Field_fromBits' (total_primitives B) bs = Returns (Field_fromBits B bs)"
  "Scalar_equal' (total_primitives B) a b = Returns (Scalar_equal B a b)"
  "Scalar_negate' (total_primitives B) a = Returns (Scalar_negate B a)"
  "Scalar_add' (total_primitives B) a b = Returns (Scalar_add B a b)"
  "Scalar_mul' (total_primitives B) a b = Returns (Scalar_mul B a b)"
  "Scalar_toBits' (total_primitives B) a = Returns (Scalar_toBits B a)"
  "Scalar_fromBytes' (total_primitives B) bytes = Returns (Scalar_fromBytes B bytes)"
  "Group_generatorMina' (total_primitives B) = Group_generatorMina B"
  "Group_scale' (total_primitives B) P a = Returns (Group_scale B P a)"
  "Group_toProjective' (total_primitives B) P = Returns (Group_toProjective B P)"
  "Group_fromProjective' (total_primitives B) = Group_fromProjective B"
  "PublicKey_toGroup' (total_primitives B) k = Returns (PublicKey_toGroup B k)"
  "Pallas_one' (total_primitives B) = Pallas_one B"
  "Pallas_scale' (total_primitives B) Q a = Returns (Pallas_scale B Q a)"
  "Pallas_sub' (total_primitives B) Q Q' = Returns (Pallas_sub B Q Q')"
  "packToFields' (total_primitives B) input = Returns (packToFields B input)"
  "hashWithPrefix' (total_primitives B) pre fs = Returns (hashWithPrefix B pre fs)"
  "prefixes_signatureMainnet' (total_primitives B) = prefixes_signatureMainnet B"
  "prefixes_signatureTestnet' (total_primitives B) = prefixes_signatureTestnet B"
  "bitsToBytes' (total_primitives B) bits = Returns (bitsToBytes B bits)"
  "blake2b' (total_primitives B) data key outlen = Returns (blake2b B data key outlen)"
  by (simp_all add: total_primitives_def)

text \<open>
  When every import returns, the functions over \<open>primitives\<close> are the functions over
  \<open>backend\<close>.
\<close>

lemma deriveNonce'_total:
  "deriveNonce' (total_primitives B) m pk sk n = Returns (deriveNonce B m pk sk n)"
  by (simp add: deriveNonce'_def deriveNonce_def total_primitives_sel mapC_Returns Let_def)

lemma hashMessage'_total:
  "hashMessage' (total_primitives B) m pk r0 n = Returns (hashMessage B m pk r0 n)"
  by (simp add: hashMessage'_def hashMessage_def total_primitives_sel Let_def)

lemma sign'_total: "sign' (total_primitives B) m sk n = sign B m sk n"
  by (simp add: sign'_def sign_def deriveNonce'_total hashMessage'_total total_primitives_sel
      Let_def)

lemma verify'_total: "verify' (total_primitives B) sg m pub n = verify B sg m pub n"
  by (simp add: verify'_def verify_def hashMessage'_total total_primitives_sel Let_def
      cbind_def split: completion.splits)

lemma signFieldElement'_total:
  "signFieldElement' (total_primitives B) f sk n = signFieldElement B f sk n"
  by (simp add: signFieldElement'_def signFieldElement_def sign'_total)

lemma verifyFieldElement'_total:
  "verifyFieldElement' (total_primitives B) sg f pub n = verifyFieldElement B sg f pub n"
  by (simp add: verifyFieldElement'_def verifyFieldElement_def verify'_total)



subsection \<open>Signing and verifying\<close>

text \<open>
  Claim C1. For every private key \<open>sk\<close> with \<open>0 < sk < q\<close>, every message and every
  network id (the two of the enumeration and any other string alike), a signature that
  \<open>sign\<close> returns is accepted by \<open>verify\<close> for the same message and network id and for a
  compressed public key that decompresses to the generator scaled by \<open>sk\<close>. The imported
  arithmetic is assumed to meet its contract.
\<close>

theorem sign_verify_roundtrip:
  assumes "primitives_contract p q B"
    and "sk \<in> {1..<q}"
    and "PublicKey_toGroup B pub = Group_scale B (Group_generatorMina B) sk"
    and "sign B m sk n = Returns sg"
  shows "verify B sg m pub n = Returns True"
proof -
  from assms(4) have nz: "\<not> Scalar_equal B (sign_kPrime B m sk n) 0"
    and sg: "sg = \<lparr>r = x (sign_R B m sk n),
                   s = Scalar_add B (sign_k B m sk n) (Scalar_mul B (sign_e B m sk n) sk)\<rparr>"
    by (auto simp add: sign_unfold split: if_splits)
  from assms(3) have pub: "PublicKey_toGroup B pub = sign_publicKey B sk"
    by (simp add: sign_publicKey_def)
  note rec = verify_R_of_sign [OF assms(1) assms(2) pub nz sg]
  from assms(1) have "Field_equal B (r sg) (r sg)"
    by (simp add: primitives_contract_def field_contract_def)
  with rec show ?thesis
    by (simp add: verify_unfold)
qed

text \<open>
  On the small instance: the private key 7 signs the message \<open>{fields: [7]}\<close> for testnet
  as \<open>(5, 8)\<close> (the nonce 6 gives a commitment with odd y, so \<open>k\<close> is its negative 7, and
  the challenge is 2), and the signature verifies.
\<close>

theorem sign_verify_roundtrip_witness:
  "primitives_contract 7 13 toy \<and>
   sign toy \<lparr>fields' = [7], packed = []\<rparr> 7 ''testnet'' = Returns \<lparr>r = 5, s = 8\<rparr> \<and>
   PublicKey_toGroup toy (5, False) = Group_scale toy (Group_generatorMina toy) 7 \<and>
   verify toy \<lparr>r = 5, s = 8\<rparr> \<lparr>fields' = [7], packed = []\<rparr> (5, False) ''testnet'' = Returns True"
proof -
  have sk: "(7::int) \<in> {1..<13}" by simp
  have pub: "PublicKey_toGroup toy (5, False) = Group_scale toy (Group_generatorMina toy) 7"
    by code_simp
  have sg: "sign toy \<lparr>fields' = [7], packed = []\<rparr> 7 ''testnet'' = Returns \<lparr>r = 5, s = 8\<rparr>"
    by code_simp
  from sign_verify_roundtrip [OF toy_contract sk pub sg] toy_contract pub sg
  show ?thesis by simp
qed




text \<open>
  Claim C3. With \<open>R = s\<cdot>G - e\<cdot>pk\<close> and \<open>e\<close> the recomputed challenge, \<open>verify\<close> returns
  \<open>true\<close> exactly when \<open>R\<close> has an affine representative \<open>(rx, ry)\<close> with \<open>ry\<close> even and
  \<open>rx\<close> equal to the signature's \<open>r\<close>; in every other case it returns \<open>false\<close>. In
  particular a signature whose reconstructed point has the matching x-coordinate and an
  odd y-coordinate is rejected.
\<close>

theorem verify_accepts_iff:
  "verify_R B sg m pub n =
     Pallas_sub B (Pallas_scale B (Pallas_one B) (s sg))
       (Pallas_scale B (Group_toProjective B (PublicKey_toGroup B pub))
          (hashMessage B m (PublicKey_toGroup B pub) (r sg) n)) \<and>
   (verify B sg m pub n = Returns True \<longleftrightarrow>
      (\<exists>P. Group_fromProjective B (verify_R B sg m pub n) = Returns P \<and>
           Field_isEven B (y P) \<and> Field_equal B (x P) (r sg))) \<and>
   (verify B sg m pub n = Returns False \<longleftrightarrow> verify B sg m pub n \<noteq> Returns True) \<and>
   (\<forall>P. Group_fromProjective B (verify_R B sg m pub n) = Returns P \<and>
        Field_equal B (x P) (r sg) \<and> \<not> Field_isEven B (y P) \<longrightarrow>
        verify B sg m pub n = Returns False)"
  by (auto simp add: verify_unfold verify_R_def Let_def split: completion.splits)

text \<open>
  On the small instance: \<open>(5, 7)\<close> reconstructs \<open>(5, 3)\<close>, the commitment of the valid
  signature \<open>(5, 8)\<close> with the other sign; its x-coordinate matches \<open>r = 5\<close>, its
  y-coordinate is odd, and \<open>verify\<close> returns \<open>false\<close>.
\<close>

theorem verify_accepts_iff_witness:
  "Group_fromProjective toy
     (verify_R toy \<lparr>r = 5, s = 7\<rparr> \<lparr>fields' = [7], packed = []\<rparr> (5, False) ''testnet'') =
     Returns \<lparr>x = 5, y = 3\<rparr> \<and>
   Field_equal toy 5 5 \<and> \<not> Field_isEven toy 3 \<and>
   verify toy \<lparr>r = 5, s = 7\<rparr> \<lparr>fields' = [7], packed = []\<rparr> (5, False) ''testnet'' = Returns False"
proof -
  have R: "Group_fromProjective toy
     (verify_R toy \<lparr>r = 5, s = 7\<rparr> \<lparr>fields' = [7], packed = []\<rparr> (5, False) ''testnet'') =
     Returns \<lparr>x = 5, y = 3\<rparr>"
    by code_simp
  have eq: "Field_equal toy 5 5" and odd: "\<not> Field_isEven toy 3"
    by (simp_all add: toy_def)
  from verify_accepts_iff [of toy "\<lparr>r = 5, s = 7\<rparr>" "\<lparr>fields' = [7], packed = []\<rparr>" "(5, False)" "''testnet''"]
  have "\<forall>P. Group_fromProjective toy
     (verify_R toy \<lparr>r = 5, s = 7\<rparr> \<lparr>fields' = [7], packed = []\<rparr> (5, False) ''testnet'') = Returns P \<and>
        Field_equal toy (x P) (r \<lparr>r = 5, s = 7\<rparr>) \<and> \<not> Field_isEven toy (y P) \<longrightarrow>
        verify toy \<lparr>r = 5, s = 7\<rparr> \<lparr>fields' = [7], packed = []\<rparr> (5, False) ''testnet'' = Returns False"
    by blast
  with R eq odd show ?thesis by simp
qed

text \<open>
  Claim C4. A signature that \<open>sign\<close> returns is canonical: \<open>k\<close> is the nonce \<open>k'\<close> when the
  y-coordinate of \<open>generator \<cdot> k'\<close> is even and \<open>-k'\<close> modulo the scalar order otherwise,
  \<open>s = k + e \<cdot> privateKey\<close> modulo the scalar order, \<open>r\<close> is the x-coordinate of
  \<open>generator \<cdot> k'\<close>, and the point the verifier reconstructs from the signature has an
  affine representative with an even y-coordinate. The imported arithmetic is assumed to
  meet its contract.
\<close>

theorem sign_canonical_commitment:
  assumes "primitives_contract p q B"
    and "sk \<in> {1..<q}"
    and "PublicKey_toGroup B pub = Group_scale B (Group_generatorMina B) sk"
    and "sign B m sk n = Returns sg"
  shows "sign_k B m sk n =
           (if Field_isEven B (y (sign_R B m sk n)) then sign_kPrime B m sk n
            else (- sign_kPrime B m sk n) mod q) \<and>
         s sg = (sign_k B m sk n + sign_e B m sk n * sk) mod q \<and>
         r sg = x (sign_R B m sk n) \<and>
         (\<exists>P. Group_fromProjective B (verify_R B sg m pub n) = Returns P \<and>
              Field_isEven B (y P))"
proof -
  from assms(1) have sc: "scalar_contract p q B" and fc: "field_contract p B"
    and dc: "digest_contract B"
    by (simp_all add: primitives_contract_def)
  from assms(2) have q1: "1 < q" and sk0: "sk \<in> {0..<q}" by auto
  from assms(4) have nz: "\<not> Scalar_equal B (sign_kPrime B m sk n) 0"
    and sg: "sg = \<lparr>r = x (sign_R B m sk n),
                   s = Scalar_add B (sign_k B m sk n) (Scalar_mul B (sign_e B m sk n) sk)\<rparr>"
    by (auto simp add: sign_unfold split: if_splits)
  from assms(3) have pub: "PublicKey_toGroup B pub = sign_publicKey B sk"
    by (simp add: sign_publicKey_def)
  have k'0: "sign_kPrime B m sk n \<in> {0..<q}"
    unfolding sign_kPrime_def by (rule deriveNonce_range [OF sc dc])
  then have neg: "Scalar_negate B (sign_kPrime B m sk n) = (- sign_kPrime B m sk n) mod q"
    using sc unfolding scalar_contract_def by blast
  have k_eq: "sign_k B m sk n =
           (if Field_isEven B (y (sign_R B m sk n)) then sign_kPrime B m sk n
            else (- sign_kPrime B m sk n) mod q)"
    by (simp add: sign_k_def neg)
  have k0: "sign_k B m sk n \<in> {0..<q}"
    unfolding k_eq using k'0 q1 by simp
  have e0: "sign_e B m sk n \<in> {0..<p}"
    unfolding sign_e_def by (rule hashMessage_range [OF fc])
  have mul: "Scalar_mul B (sign_e B m sk n) sk = (sign_e B m sk n * sk) mod q"
    using sc e0 sk0 unfolding scalar_contract_def by blast
  have mulr: "(sign_e B m sk n * sk) mod q \<in> {0..<q}" using q1 by simp
  have "s sg = (sign_k B m sk n + (sign_e B m sk n * sk) mod q) mod q"
    using sc k0 mulr unfolding scalar_contract_def sg mul by simp
  then have s_eq: "s sg = (sign_k B m sk n + sign_e B m sk n * sk) mod q"
    by (simp add: mod_simps)
  have r_eq: "r sg = x (sign_R B m sk n)" by (simp add: sg)
  from verify_R_of_sign(1,3) [OF assms(1) assms(2) pub nz sg]
  have "\<exists>P. Group_fromProjective B (verify_R B sg m pub n) = Returns P \<and> Field_isEven B (y P)"
    by blast
  with k_eq s_eq r_eq show ?thesis by blast
qed

text \<open>
  On the small instance: the private key 9 and the message \<open>{fields: [7]}\<close> on testnet
  give the nonce 6, whose commitment \<open>(5, 3)\<close> has odd y, hence \<open>k = 7\<close>; with the
  challenge 6 the signature is \<open>(5, 9)\<close>.
\<close>

theorem sign_canonical_commitment_witness:
  "primitives_contract 7 13 toy \<and>
   sign toy \<lparr>fields' = [7], packed = []\<rparr> 9 ''testnet'' = Returns \<lparr>r = 5, s = 9\<rparr> \<and>
   sign_kPrime toy \<lparr>fields' = [7], packed = []\<rparr> 9 ''testnet'' = 6 \<and>
   sign_R toy \<lparr>fields' = [7], packed = []\<rparr> 9 ''testnet'' = \<lparr>x = 5, y = 3\<rparr> \<and>
   sign_k toy \<lparr>fields' = [7], packed = []\<rparr> 9 ''testnet'' = 7 \<and>
   sign_e toy \<lparr>fields' = [7], packed = []\<rparr> 9 ''testnet'' = 6 \<and>
   (\<exists>P. Group_fromProjective toy
          (verify_R toy \<lparr>r = 5, s = 9\<rparr> \<lparr>fields' = [7], packed = []\<rparr> (4, False) ''testnet'') =
          Returns P \<and> Field_isEven toy (y P))"
proof -
  have sk: "(9::int) \<in> {1..<13}" by simp
  have pub: "PublicKey_toGroup toy (4, False) = Group_scale toy (Group_generatorMina toy) 9"
    by code_simp
  have sg: "sign toy \<lparr>fields' = [7], packed = []\<rparr> 9 ''testnet'' = Returns \<lparr>r = 5, s = 9\<rparr>"
    by code_simp
  have vals: "sign_kPrime toy \<lparr>fields' = [7], packed = []\<rparr> 9 ''testnet'' = 6"
    "sign_R toy \<lparr>fields' = [7], packed = []\<rparr> 9 ''testnet'' = \<lparr>x = 5, y = 3\<rparr>"
    "sign_k toy \<lparr>fields' = [7], packed = []\<rparr> 9 ''testnet'' = 7"
    "sign_e toy \<lparr>fields' = [7], packed = []\<rparr> 9 ''testnet'' = 6"
    by code_simp+
  from sign_canonical_commitment [OF toy_contract sk pub sg] toy_contract sg vals
  show ?thesis by blast
qed

subsection \<open>Nonce derivation and challenge hash\<close>

text \<open>
  Claim C5. \<open>deriveNonce\<close> computes what section 4.2 of the specification lists: network
  code \<open>0x01\<close> for mainnet and \<open>0x00\<close> for testnet, the field list \<open>[x, y, d]\<close> and the
  packed pair \<open>(code, 8)\<close> appended to the message, packing to field elements, their bits
  regrouped to bytes, the 32-byte hash, the mask \<open>0x3f\<close> on the byte at index 31, and the
  scalar decoder applied to the 32 bytes. The source masks the last byte of the hash
  output, which is the byte at index 31 because the hash returns 32 bytes.
\<close>

theorem deriveNonce_steps:
  assumes "digest_contract B"
  shows "deriveNonce B m pk sk (networkId_of nid) = deriveNonce_spec B m pk sk nid"
proof -
  let ?input = "bitsToBytes B (concat (map (Field_toBits B)
                  (packToFields B (deriveNonce_input B m pk sk (networkId_of nid)))))"
  have len: "length (blake2b B ?input None 32) = 32"
    using assms by (simp add: digest_contract_def)
  then have ne: "blake2b B ?input None 32 \<noteq> []" by auto
  have code: "(if networkId_of nid = ''mainnet'' then networkIdMainnet else networkIdTestnet) =
              networkCode_spec nid"
    by (cases nid) (simp_all add: networkId_of_def networkCode_spec_def
        networkIdMainnet_def networkIdTestnet_def)
  have input: "deriveNonce_input B m pk sk (networkId_of nid) =
      \<lparr>fields' = fields' m @ [x pk, y pk, Field_fromBits B (Scalar_toBits B sk)],
       packed = packed m @ [(networkCode_spec nid, 8)]\<rparr>"
    by (simp add: deriveNonce_input_def Let_def HashInput_append_def code)
  show ?thesis
    unfolding deriveNonce_unfold Let_def
    using len ne unfolding input
    by (simp add: deriveNonce_spec_def Let_def)
qed

text \<open>On the small instance, for the public key \<open>(5, 4)\<close> of the private key 7.\<close>

theorem deriveNonce_steps_witness:
  "digest_contract toy \<and>
   deriveNonce toy \<lparr>fields' = [7], packed = []\<rparr> \<lparr>x = 5, y = 4\<rparr> 7 ''mainnet'' =
     deriveNonce_spec toy \<lparr>fields' = [7], packed = []\<rparr> \<lparr>x = 5, y = 4\<rparr> 7 Mainnet \<and>
   deriveNonce toy \<lparr>fields' = [7], packed = []\<rparr> \<lparr>x = 5, y = 4\<rparr> 7 ''testnet'' = 6"
proof -
  have v: "deriveNonce toy \<lparr>fields' = [7], packed = []\<rparr> \<lparr>x = 5, y = 4\<rparr> 7 ''testnet'' = 6"
    by code_simp
  from deriveNonce_steps [OF toy_digest, of "\<lparr>fields' = [7], packed = []\<rparr>" "\<lparr>x = 5, y = 4\<rparr>" 7 Mainnet]
    toy_digest v
  show ?thesis by (simp add: networkId_of_def)
qed

text \<open>
  Claim C7. \<open>hashMessage\<close> appends the field list \<open>[x, y, r]\<close> to the message, packs the
  result to field elements, hashes them under the mainnet prefix when the network id is
  \<open>mainnet\<close> and under the testnet prefix otherwise, and returns the hash output as a
  scalar with its value unchanged: nothing is reduced.
\<close>

theorem hashMessage_steps:
  "hashMessage B m pk r0 n = hashMessage_spec B m pk r0 n"
  by (simp add: hashMessage_def hashMessage_spec_def HashInput_append_def Let_def
      reinterpret_as_scalar_def)

text \<open>
  Claim C10. A network id other than the string \<open>mainnet\<close> is treated as \<open>testnet\<close>:
  \<open>deriveNonce\<close> returns the scalar decoded from the masked digest of the hash input
  whose packed part is the pair of the network code \<open>0x00\<close> and the width 8, and
  \<open>hashMessage\<close> hashes under the testnet prefix, so both return what they return for
  \<open>testnet\<close>, and so do \<open>sign\<close> and \<open>verify\<close>. No value of the network id is rejected.
\<close>

theorem unrecognised_networkId_is_testnet:
  assumes "n \<noteq> ''mainnet''"
  shows "deriveNonce B m pk sk n =
           (let input = HashInput_append m
                          \<lparr>fields' = [x pk, y pk, Field_fromBits B (Scalar_toBits B sk)],
                           packed = [(0x00, 8)]\<rparr>;
                bytes = blake2b B (bitsToBytes B (concat (map (Field_toBits B)
                          (packToFields B input)))) None 32
            in Scalar_fromBytes B
                 (if bytes = [] then bytes
                  else bytes[length bytes - 1 := (bytes ! (length bytes - 1)) AND 0x3f])) \<and>
         deriveNonce B m pk sk n = deriveNonce B m pk sk ''testnet'' \<and>
         hashMessage B m pk r0 n =
           hashWithPrefix B (prefixes_signatureTestnet B)
             (packToFields B (HashInput_append m \<lparr>fields' = [x pk, y pk, r0], packed = []\<rparr>)) \<and>
         hashMessage B m pk r0 n = hashMessage B m pk r0 ''testnet'' \<and>
         sign B m sk n = sign B m sk ''testnet'' \<and>
         verify B sg m pub n = verify B sg m pub ''testnet''"
  using assms
  by (simp add: deriveNonce_def hashMessage_def sign_def verify_def
      networkIdTestnet_def Let_def)

text \<open>
  On the small instance, for the private key 1 and the public key \<open>1 \<cdot> G = (1, 2)\<close>: the
  nonce for \<open>devnet\<close> is 6, the nonce for \<open>mainnet\<close> is another one; signing for \<open>devnet\<close>
  gives the testnet signature \<open>(5, 10)\<close>, which differs from the mainnet signature, and
  the signature verifies for \<open>devnet\<close>.
\<close>

theorem unrecognised_networkId_is_testnet_witness:
  "''devnet'' \<noteq> ''mainnet'' \<and>
   deriveNonce toy \<lparr>fields' = [7], packed = []\<rparr> \<lparr>x = 1, y = 2\<rparr> 1 ''devnet'' = 6 \<and>
   deriveNonce toy \<lparr>fields' = [7], packed = []\<rparr> \<lparr>x = 1, y = 2\<rparr> 1 ''mainnet'' \<noteq> 6 \<and>
   sign toy \<lparr>fields' = [7], packed = []\<rparr> 1 ''devnet'' = Returns \<lparr>r = 5, s = 10\<rparr> \<and>
   sign toy \<lparr>fields' = [7], packed = []\<rparr> 1 ''testnet'' = Returns \<lparr>r = 5, s = 10\<rparr> \<and>
   sign toy \<lparr>fields' = [7], packed = []\<rparr> 1 ''mainnet'' \<noteq> Returns \<lparr>r = 5, s = 10\<rparr> \<and>
   verify toy \<lparr>r = 5, s = 10\<rparr> \<lparr>fields' = [7], packed = []\<rparr> (1, False) ''devnet'' = Returns True"
proof -
  have ne: "''devnet'' \<noteq> ''mainnet''" by simp
  have kt: "deriveNonce toy \<lparr>fields' = [7], packed = []\<rparr> \<lparr>x = 1, y = 2\<rparr> 1 ''testnet'' = 6"
    by code_simp
  have km: "deriveNonce toy \<lparr>fields' = [7], packed = []\<rparr> \<lparr>x = 1, y = 2\<rparr> 1 ''mainnet'' \<noteq> 6"
    by code_simp
  have sg: "sign toy \<lparr>fields' = [7], packed = []\<rparr> 1 ''testnet'' = Returns \<lparr>r = 5, s = 10\<rparr>"
    by code_simp
  have sm: "sign toy \<lparr>fields' = [7], packed = []\<rparr> 1 ''mainnet'' \<noteq> Returns \<lparr>r = 5, s = 10\<rparr>"
    by code_simp
  have vf: "verify toy \<lparr>r = 5, s = 10\<rparr> \<lparr>fields' = [7], packed = []\<rparr> (1, False) ''testnet'' = Returns True"
    by code_simp
  note T = unrecognised_networkId_is_testnet [OF ne, where B = toy
      and m = "\<lparr>fields' = [7], packed = []\<rparr>" and sk = 1 and pk = "\<lparr>x = 1, y = 2\<rparr>"
      and sg = "\<lparr>r = 5, s = 10\<rparr>" and pub = "(1, False)"]
  from T [THEN conjunct2, THEN conjunct1] kt have kd: "deriveNonce toy \<lparr>fields' = [7], packed = []\<rparr> \<lparr>x = 1, y = 2\<rparr> 1 ''devnet'' = 6"
    by simp
  from T [THEN conjunct2, THEN conjunct2, THEN conjunct2, THEN conjunct2, THEN conjunct1] sg
  have sd: "sign toy \<lparr>fields' = [7], packed = []\<rparr> 1 ''devnet'' = Returns \<lparr>r = 5, s = 10\<rparr>"
    by simp
  from T [THEN conjunct2, THEN conjunct2, THEN conjunct2, THEN conjunct2, THEN conjunct2] vf
  have vd: "verify toy \<lparr>r = 5, s = 10\<rparr> \<lparr>fields' = [7], packed = []\<rparr> (1, False) ''devnet'' = Returns True"
    by simp
  from ne kd km sd sg sm vd show ?thesis by simp
qed

subsection \<open>The zero nonce\<close>




subsection \<open>The signature codec\<close>

lemma digits_value_snoc: "digits_value b (ds @ [d]) = digits_value b ds * b + d"
  by (simp add: digits_value_def)

lemma digits_value_Nil: "digits_value b [] = 0"
  by (simp add: digits_value_def)

lemma digits_value_nonneg:
  assumes "0 \<le> b" and "\<forall>d\<in>set ds. 0 \<le> d"
  shows "0 \<le> digits_value b ds"
  using assms(2)
proof (induction ds rule: rev_induct)
  case Nil
  show ?case by (simp add: digits_value_Nil)
next
  case (snoc d ds)
  then have "0 \<le> digits_value b ds" and "0 \<le> d" by simp_all
  with assms(1) show ?case by (simp add: digits_value_snoc)
qed

lemma digits_value_pos:
  assumes "2 \<le> b" and "\<forall>d\<in>set ds. 0 \<le> d" and "ds \<noteq> []" and "hd ds \<noteq> 0"
  shows "0 < digits_value b ds"
  using assms(2-)
proof (induction ds rule: rev_induct)
  case Nil
  then show ?case by simp
next
  case (snoc d ds)
  show ?case
  proof (cases "ds = []")
    case True
    with snoc.prems show ?thesis
      by (simp add: digits_value_def order_less_le)
  next
    case False
    with snoc have "0 < digits_value b ds" by simp
    moreover from snoc.prems have "0 \<le> d" by simp
    ultimately show ?thesis using assms(1)
      by (simp add: digits_value_snoc add_pos_nonneg)
  qed
qed

lemma digits_value_zeros: "digits_value b (replicate z 0 @ ds) = digits_value b ds"
proof -
  have "foldl (\<lambda>acc d. acc * b + d) 0 (replicate z 0) = 0"
    by (induction z) simp_all
  then show ?thesis by (simp add: digits_value_def)
qed

lemma value_toDigits:
  "2 \<le> b \<Longrightarrow> 0 \<le> n \<Longrightarrow> digits_value b (toDigits b n) = n"
proof (induction b n rule: toDigits.induct)
  case (1 b n)
  show ?case
  proof (cases "n \<le> 0 \<or> b < 2")
    case True
    with "1.prems" have "n = 0" by auto
    then show ?thesis
      by (simp add: toDigits.simps [of b 0] digits_value_Nil del: toDigits.simps)
  next
    case False
    then have "0 \<le> n div b" by (simp add: pos_imp_zdiv_nonneg_iff)
    with False "1.IH" "1.prems" have "digits_value b (toDigits b (n div b)) = n div b" by simp
    with False show ?thesis
      by (simp add: toDigits.simps [of b n] digits_value_snoc del: toDigits.simps)
  qed
qed

lemma toDigits_range:
  "2 \<le> b \<Longrightarrow> d \<in> set (toDigits b n) \<Longrightarrow> 0 \<le> d \<and> d < b"
proof (induction b n rule: toDigits.induct)
  case (1 b n)
  show ?case
  proof (cases "n \<le> 0 \<or> b < 2")
    case True
    with "1.prems" show ?thesis by (simp add: toDigits.simps [of b n] del: toDigits.simps)
  next
    case False
    with "1.prems" have "d \<in> set (toDigits b (n div b)) \<or> d = n mod b"
      by (auto simp add: toDigits.simps [of b n] simp del: toDigits.simps)
    then show ?thesis
    proof
      assume "d \<in> set (toDigits b (n div b))"
      with False "1.IH" "1.prems" show ?thesis by simp
    next
      assume "d = n mod b"
      with False show ?thesis by simp
    qed
  qed
qed

lemma toDigits_hd:
  "2 \<le> b \<Longrightarrow> toDigits b n \<noteq> [] \<Longrightarrow> hd (toDigits b n) \<noteq> 0"
proof (induction b n rule: toDigits.induct)
  case (1 b n)
  from "1.prems" have pos: "\<not> (n \<le> 0 \<or> b < 2)"
    by (auto simp add: toDigits.simps [of b n] simp del: toDigits.simps)
  then have unfold: "toDigits b n = toDigits b (n div b) @ [n mod b]"
    by (simp add: toDigits.simps [of b n] del: toDigits.simps)
  show ?case
  proof (cases "toDigits b (n div b) = []")
    case True
    then have "n div b \<le> 0"
      using pos by (auto simp add: toDigits.simps [of b "n div b"] simp del: toDigits.simps split: if_splits)
    moreover from pos have "0 \<le> n div b" by (simp add: pos_imp_zdiv_nonneg_iff)
    ultimately have "n div b = 0" by simp
    with pos have "n mod b = n"
      by (metis div_mult_mod_eq mult_zero_left add_0)
    with True unfold pos show ?thesis by simp
  next
    case False
    with "1.IH" pos "1.prems" have "hd (toDigits b (n div b)) \<noteq> 0" by simp
    with False unfold show ?thesis by simp
  qed
qed

lemma toDigits_value:
  assumes "2 \<le> b"
  shows "\<forall>d\<in>set ds. 0 \<le> d \<and> d < b \<Longrightarrow> ds = [] \<or> hd ds \<noteq> 0 \<Longrightarrow>
         toDigits b (digits_value b ds) = ds"
proof (induction ds rule: rev_induct)
  case Nil
  show ?case by (simp add: digits_value_Nil toDigits.simps [of b 0] del: toDigits.simps)
next
  case (snoc d ds)
  from snoc.prems have d: "0 \<le> d" "d < b" and ds: "\<forall>e\<in>set ds. 0 \<le> e \<and> e < b" by simp_all
  from snoc.prems have hd: "ds = [] \<or> hd ds \<noteq> 0" by (cases ds) simp_all
  have nonneg: "0 \<le> digits_value b ds"
    using assms ds by (intro digits_value_nonneg) auto
  have pos: "0 < digits_value b (ds @ [d])"
    using assms snoc.prems by (intro digits_value_pos) auto
  have dv: "(digits_value b ds * b + d) div b = digits_value b ds"
    using assms d by (simp add: div_pos_pos_trivial)
  have md: "(digits_value b ds * b + d) mod b = d"
    using assms d by (simp add: mod_pos_pos_trivial)
  have "toDigits b (digits_value b (ds @ [d])) =
        toDigits b ((digits_value b ds * b + d) div b) @ [(digits_value b ds * b + d) mod b]"
    using pos assms by (simp add: toDigits.simps [of b "digits_value b ds * b + d"] digits_value_snoc del: toDigits.simps)
  also have "\<dots> = toDigits b (digits_value b ds) @ [d]" by (simp only: dv md)
  also have "\<dots> = ds @ [d]" using snoc.IH ds hd by simp
  finally show ?case .
qed

lemma leadingZeros_split:
  "ds = replicate (leadingZeros ds) 0 @ dropWhile (\<lambda>d. d = 0) ds"
proof -
  have "replicate (length (takeWhile (\<lambda>d. d = 0) ds)) 0 = takeWhile (\<lambda>d. d = 0) ds"
    by (rule replicate_length_same) (auto dest: set_takeWhileD)
  then show ?thesis by (simp add: leadingZeros_def)
qed

lemma leadingZeros_replicate:
  "es = [] \<or> hd es \<noteq> 0 \<Longrightarrow> leadingZeros (replicate z 0 @ es) = z"
  by (cases es) (simp_all add: leadingZeros_def takeWhile_append)

lemma dropWhile_zero_hd:
  "dropWhile (\<lambda>d. d = 0) ds = [] \<or> hd (dropWhile (\<lambda>d. d = (0::int)) ds) \<noteq> 0"
  using hd_dropWhile [of "\<lambda>d. d = (0::int)" ds] by blast

lemma changeBase_range:
  assumes "2 \<le> b'"
  shows "\<forall>d\<in>set (changeBase b b' ds). 0 \<le> d \<and> d < b'"
  using assms toDigits_range [OF assms]
  by (auto simp add: changeBase_def simp del: toDigits.simps)

lemma changeBase_inverse:
  assumes b: "2 \<le> b" and b': "2 \<le> b'" and rng: "\<forall>d\<in>set ds. 0 \<le> d \<and> d < b"
  shows "changeBase b' b (changeBase b b' ds) = ds"
proof -
  let ?z = "leadingZeros ds"
  let ?rest = "dropWhile (\<lambda>d. d = 0) ds"
  let ?v = "digits_value b ds"
  have split: "ds = replicate ?z 0 @ ?rest" by (rule leadingZeros_split)
  have rest_rng: "\<forall>d\<in>set ?rest. 0 \<le> d \<and> d < b"
    using rng by (auto dest: set_dropWhileD)
  have v_rest: "?v = digits_value b ?rest"
    by (subst split) (simp only: digits_value_zeros)
  have v0: "0 \<le> ?v"
    using b rng by (intro digits_value_nonneg) auto
  have lead: "leadingZeros (replicate ?z 0 @ toDigits b' ?v) = ?z"
    using toDigits_hd [OF b', of ?v] by (intro leadingZeros_replicate) blast
  have val: "digits_value b' (replicate ?z 0 @ toDigits b' ?v) = ?v"
    by (simp only: digits_value_zeros value_toDigits [OF b' v0])
  have bk: "toDigits b ?v = ?rest"
    unfolding v_rest using rest_rng dropWhile_zero_hd [of ds]
    by (intro toDigits_value [OF b]) auto
  have "changeBase b' b (changeBase b b' ds) = replicate ?z 0 @ ?rest"
    unfolding changeBase_def [of b b'] changeBase_def [of b' b] lead val bk ..
  with split show ?thesis by simp
qed


lemma index_of_Some:
  "index_of c xs = Some i \<Longrightarrow> i < length xs \<and> xs ! i = c"
  by (induction xs arbitrary: i) (auto split: if_splits)

lemma index_of_nth:
  "distinct xs \<Longrightarrow> i < length xs \<Longrightarrow> index_of (xs ! i) xs = Some i"
proof (induction xs arbitrary: i)
  case Nil
  then show ?case by simp
next
  case (Cons a xs)
  show ?case
  proof (cases i)
    case 0
    then show ?thesis by simp
  next
    case (Suc j)
    with Cons.prems have "j < length xs" and "xs ! j \<noteq> a" by auto
    with Cons Suc show ?thesis by simp
  qed
qed

lemma length_alphabet: "length alphabet = 58"
  by (simp add: alphabet_def)

lemma distinct_alphabet: "distinct alphabet"
  by (simp add: alphabet_def)

lemma base58_digits_chars:
  "\<forall>d\<in>set ds. 0 \<le> d \<and> d < 58 \<Longrightarrow>
     base58_digits (map (\<lambda>d. alphabet ! nat d) ds) = Some ds"
proof (induction ds)
  case Nil
  show ?case by simp
next
  case (Cons d ds)
  then have "nat d < length alphabet" by (auto simp add: length_alphabet)
  then have "index_of (alphabet ! nat d) alphabet = Some (nat d)"
    by (rule index_of_nth [OF distinct_alphabet])
  with Cons show ?case by simp
qed

lemma chars_base58_digits:
  "base58_digits str = Some ds \<Longrightarrow>
     (\<forall>d\<in>set ds. 0 \<le> d \<and> d < 58) \<and> map (\<lambda>d. alphabet ! nat d) ds = str"
proof (induction str arbitrary: ds)
  case Nil
  then show ?case by simp
next
  case (Cons c cs)
  from Cons.prems obtain i es where i: "index_of c alphabet = Some i"
    and es: "base58_digits cs = Some es" and ds: "ds = int i # es"
    by (auto split: option.splits)
  from index_of_Some [OF i] have "i < 58" and "alphabet ! i = c"
    by (simp_all add: length_alphabet)
  with Cons.IH [OF es] ds show ?case by simp
qed

lemma uint_word_of_int_byte:
  "0 \<le> d \<Longrightarrow> d < 256 \<Longrightarrow> uint (word_of_int d :: byte) = d"
  by (simp add: uint_word_of_int)

lemma map_uint_word_of_int:
  "\<forall>d\<in>set ds. 0 \<le> d \<and> d < 256 \<Longrightarrow> map uint (map word_of_int ds :: byte list) = ds"
  by (induction ds) (simp_all add: uint_word_of_int_byte)

lemma uint_byte_range: "\<forall>d\<in>set (map uint (bytes :: byte list)). 0 \<le> d \<and> d < 256"
proof -
  have "uint b < 256" for b :: byte
    using uint_bounded [of b] by simp
  then show ?thesis by simp
qed

lemma base58_decode_encode: "base58_decode (base58_encode bytes) = Returns bytes"
proof -
  let ?es = "changeBase 256 58 (map uint bytes)"
  have rng: "\<forall>d\<in>set ?es. 0 \<le> d \<and> d < 58"
    by (rule changeBase_range) simp
  have "changeBase 58 256 ?es = map uint bytes"
    by (rule changeBase_inverse) (simp_all add: uint_byte_range del: set_map)
  then show ?thesis
    by (simp add: base58_decode_def base58_encode_def base58_digits_chars [OF rng] map_idI)
qed

lemma base58_encode_decode:
  assumes "base58_decode str = Returns bytes"
  shows "base58_encode bytes = str"
proof -
  from assms obtain ds where ds: "base58_digits str = Some ds"
    and bytes: "bytes = map word_of_int (changeBase 58 256 ds)"
    by (auto simp add: base58_decode_def split: option.splits)
  from chars_base58_digits [OF ds] have rng: "\<forall>d\<in>set ds. 0 \<le> d \<and> d < 58"
    and str: "map (\<lambda>d. alphabet ! nat d) ds = str" by simp_all
  have "\<forall>d\<in>set (changeBase 58 256 ds). 0 \<le> d \<and> d < 256"
    by (rule changeBase_range) simp
  then have "map uint bytes = changeBase 58 256 ds"
    unfolding bytes by (rule map_uint_word_of_int)
  moreover have "changeBase 256 58 (changeBase 58 256 ds) = ds"
    using rng by (intro changeBase_inverse) simp_all
  ultimately show ?thesis
    by (simp add: base58_encode_def str)
qed

lemma fromBase58Check_toBase58Check:
  assumes "length (computeChecksum C (versionByte # input)) = 4"
  shows "fromBase58Check C (toBase58Check C input versionByte) versionByte = Returns input"
  using assms
  by (simp add: fromBase58Check_def toBase58Check_def Let_def base58_decode_encode)

lemma toBase58Check_fromBase58Check:
  assumes "fromBase58Check C str versionByte = Returns payload"
  shows "toBase58Check C payload versionByte = str"
proof -
  from assms obtain bytes where dec: "base58_decode str = Returns bytes"
    by (auto simp add: fromBase58Check_def split: completion.splits)
  let ?orig = "take (length bytes - 4) bytes"
  from assms dec have sum: "drop (length bytes - 4) bytes = computeChecksum C ?orig"
    and orig: "?orig = versionByte # payload"
    by (auto simp add: fromBase58Check_def Let_def split: if_splits list.splits)
  have "bytes = ?orig @ drop (length bytes - 4) bytes" by simp
  then have "bytes = (versionByte # payload) @ computeChecksum C (versionByte # payload)"
    unfolding sum orig .
  with base58_encode_decode [OF dec] show ?thesis
    by (simp add: toBase58Check_def Let_def)
qed

lemma fromBytes_toBytes:
  assumes "binable_contract valid A" and "valid v"
  shows "fromBytes A (toBytes A v) = Returns v"
proof -
  from assms have "readBytes A (toBytes A v @ []) = Returns (v, [])"
    unfolding binable_contract_def by blast
  then show ?thesis by (simp add: fromBytes_def)
qed

lemma toBytes_fromBytes:
  assumes "binable_contract valid A" and "fromBytes A bytes = Returns v"
  shows "valid v \<and> toBytes A v = bytes"
proof -
  from assms(2) have "readBytes A bytes = Returns (v, [])"
    by (auto simp add: fromBytes_def split: completion.splits if_splits)
  with assms(1) show ?thesis
    unfolding binable_contract_def by fastforce
qed

lemma tuple_contract:
  assumes A: "binable_contract va A" and B: "binable_contract vb B"
  shows "binable_contract (\<lambda>(a, b). va a \<and> vb b) (tuple A B)"
  unfolding binable_contract_def
proof (intro conjI allI impI)
  fix v :: "'a \<times> 'b" and rest
  assume "case v of (a, b) \<Rightarrow> va a \<and> vb b"
  then obtain a b where v: "v = (a, b)" and a: "va a" and b: "vb b" by (cases v) auto
  from A a have "readBytes A (toBytes A a @ (toBytes B b @ rest)) = Returns (a, toBytes B b @ rest)"
    unfolding binable_contract_def by blast
  moreover from B b have "readBytes B (toBytes B b @ rest) = Returns (b, rest)"
    unfolding binable_contract_def by blast
  ultimately show "readBytes (tuple A B) (toBytes (tuple A B) v @ rest) = Returns (v, rest)"
    by (simp add: tuple_def v)
next
  fix bytes and v :: "'a \<times> 'b" and rest
  assume rd: "readBytes (tuple A B) bytes = Returns (v, rest)"
  obtain a b where v: "v = (a, b)" by (cases v)
  from rd v obtain mid where ra: "readBytes A bytes = Returns (a, mid)"
    and rb: "readBytes B mid = Returns (b, rest)"
    by (auto simp add: tuple_def split: completion.splits)
  from A ra have a: "va a" "bytes = toBytes A a @ mid"
    unfolding binable_contract_def by blast+
  from B rb have b: "vb b" "mid = toBytes B b @ rest"
    unfolding binable_contract_def by blast+
  from a b v show "case v of (a, b) \<Rightarrow> va a \<and> vb b" by simp
  from a b v show "bytes = toBytes (tuple A B) v @ rest" by (simp add: tuple_def)
qed

lemma withVersionNumber_contract:
  assumes A: "binable_contract valid A"
  shows "binable_contract valid (withVersionNumber A n)"
  unfolding binable_contract_def
proof (intro conjI allI impI)
  fix v rest
  assume "valid v"
  with A have "readBytes A (toBytes A v @ rest) = Returns (v, rest)"
    unfolding binable_contract_def by blast
  then show "readBytes (withVersionNumber A n) (toBytes (withVersionNumber A n) v @ rest) =
             Returns (v, rest)"
    by (simp add: withVersionNumber_def)
next
  fix bytes v rest
  assume rd: "readBytes (withVersionNumber A n) bytes = Returns (v, rest)"
  then obtain tl where bytes: "bytes = n # tl" and ra: "readBytes A tl = Returns (v, rest)"
    by (auto simp add: withVersionNumber_def split: list.splits if_splits)
  from A ra have "valid v" and "tl = toBytes A v @ rest"
    unfolding binable_contract_def by blast+
  with bytes show "valid v" and "bytes = toBytes (withVersionNumber A n) v @ rest"
    by (simp_all add: withVersionNumber_def)
qed

lemma BinableSignature_contract:
  assumes "codec_contract p q C"
  shows "binable_contract (\<lambda>(a, b). a \<in> {0..<p} \<and> b \<in> {0..<q}) (BinableSignature C)"
  using assms unfolding BinableSignature_def codec_contract_def
  by (intro withVersionNumber_contract tuple_contract) simp_all


lemma length_bigIntToBytes: "length (bigIntToBytes n v) = n"
  by (induction n arbitrary: v) simp_all

lemma bytesToBigInt_nonneg: "0 \<le> bytesToBigInt bytes"
  by (induction bytes) simp_all

lemma bytesToBigInt_bigIntToBytes:
  "0 \<le> v \<Longrightarrow> v < 256 ^ n \<Longrightarrow> bytesToBigInt (bigIntToBytes n v) = v"
proof (induction n arbitrary: v)
  case 0
  then show ?case by simp
next
  case (Suc n)
  from Suc.prems have "v < 256 * 256 ^ n" by simp
  then have "v div 256 < 256 ^ n" by linarith
  moreover from Suc.prems have "0 \<le> v div 256"
    by (simp add: pos_imp_zdiv_nonneg_iff)
  ultimately have "0 \<le> v div 256" and "v div 256 < 256 ^ n" by simp_all
  with Suc.IH have "bytesToBigInt (bigIntToBytes n (v div 256)) = v div 256" by simp
  moreover have "uint (word_of_int (v mod 256) :: byte) = v mod 256"
    by (simp add: uint_word_of_int)
  ultimately show ?case by simp
qed

lemma bigIntToBytes_bytesToBigInt:
  "bigIntToBytes (length bytes) (bytesToBigInt bytes) = bytes"
proof (induction bytes)
  case Nil
  show ?case by simp
next
  case (Cons b bytes)
  have lt: "uint b < 256" using uint_bounded [of b] by simp
  have "(uint b + 256 * bytesToBigInt bytes) mod 256 = uint b"
    using lt by (simp add: mod_pos_pos_trivial)
  moreover have "(uint b + 256 * bytesToBigInt bytes) div 256 = bytesToBigInt bytes"
    using lt by (simp add: div_pos_pos_trivial)
  ultimately show ?case using Cons by simp
qed

lemma BinableBigint_contract:
  assumes "modulus \<le> 256 ^ n"
  shows "binable_contract (\<lambda>v. v \<in> {0..<modulus}) (BinableBigint n modulus)"
  unfolding binable_contract_def
proof (intro conjI allI impI)
  fix v rest
  assume "v \<in> {0..<modulus}"
  with assms have v: "0 \<le> v" "v < 256 ^ n" "v < modulus" by auto
  then show "readBytes (BinableBigint n modulus) (toBytes (BinableBigint n modulus) v @ rest) =
             Returns (v, rest)"
    by (simp add: BinableBigint_def length_bigIntToBytes bytesToBigInt_bigIntToBytes)
next
  fix bytes v rest
  assume rd: "readBytes (BinableBigint n modulus) bytes = Returns (v, rest)"
  then have len: "n \<le> length bytes" and v: "v = bytesToBigInt (take n bytes)"
    and lt: "v < modulus" and rest: "rest = drop n bytes"
    by (auto simp add: BinableBigint_def Let_def split: if_splits)
  from v lt show "v \<in> {0..<modulus}" by (simp add: bytesToBigInt_nonneg)
  from len have "length (take n bytes) = n" by simp
  with bigIntToBytes_bytesToBigInt [of "take n bytes"]
  have "bigIntToBytes n v = take n bytes" by (simp add: v)
  with rest show "bytes = toBytes (BinableBigint n modulus) v @ rest"
    by (simp add: BinableBigint_def)
qed

lemma toy_codec_contract: "codec_contract 7 13 toy_codec"
proof -
  have "binable_contract (\<lambda>v. v \<in> {0..<7}) (BinableBigint 1 7)"
    and "binable_contract (\<lambda>v. v \<in> {0..<13}) (BinableBigint 1 13)"
    by (rule BinableBigint_contract, simp)+
  then show ?thesis
    unfolding codec_contract_def
    by (simp add: toy_codec_def BinableBigint_def)
qed

lemma Signature_fromBase58_Returns:
  "Signature_fromBase58 C str = Returns sg \<longleftrightarrow>
     (\<exists>payload. fromBase58Check C str (versionBytes_signature C) = Returns payload \<and>
                fromBytes (BinableSignature C) payload = Returns (r sg, s sg))"
  by (auto simp add: Signature_fromBase58_def BinableBase58_def base58_def
      split: completion.splits)

lemma length_BinableSignature:
  assumes "codec_contract p q C" and "a \<in> {0..<p}" and "b \<in> {0..<q}"
  shows "length (toBytes (BinableSignature C) (a, b)) = 1 + 2 * sizeInBytes C"
  using assms
  by (simp add: codec_contract_def BinableSignature_def withVersionNumber_def tuple_def)

text \<open>
  Claim C8. For every signature with \<open>r\<close> an element of the base field and \<open>s\<close> an
  element of the scalar field, \<open>Signature.fromBase58 (Signature.toBase58 sig)\<close> returns
  \<open>sig\<close>. \<open>Signature.fromBase58\<close> returns a signature only for the text that
  \<open>Signature.toBase58\<close> writes for that signature, so it never produces a value from
  malformed input: a character outside the alphabet, a bad checksum and a wrong version
  byte each throw their decoding error, and a payload of the wrong length throws. The
  imported encodings are assumed to meet their contract.
\<close>

theorem Signature_base58_roundtrip:
  assumes "codec_contract p q C"
  shows "(r sg \<in> {0..<p} \<and> s sg \<in> {0..<q} \<longrightarrow>
            Signature_fromBase58 C (Signature_toBase58 C sg) = Returns sg) \<and>
         (\<forall>str sg'. Signature_fromBase58 C str = Returns sg' \<longrightarrow>
            r sg' \<in> {0..<p} \<and> s sg' \<in> {0..<q} \<and> Signature_toBase58 C sg' = str) \<and>
         (\<forall>str. base58_digits str = None \<longrightarrow>
            Signature_fromBase58 C str = Throws (Error ''fromBase58: invalid character'')) \<and>
         (\<forall>str bytes. base58_decode str = Returns bytes \<and>
            drop (length bytes - 4) bytes \<noteq> computeChecksum C (take (length bytes - 4) bytes) \<longrightarrow>
            Signature_fromBase58 C str = Throws (Error ''fromBase58Check: invalid checksum'')) \<and>
         (\<forall>str bytes v payload. base58_decode str = Returns bytes \<and>
            drop (length bytes - 4) bytes = computeChecksum C (take (length bytes - 4) bytes) \<and>
            take (length bytes - 4) bytes = v # payload \<and> v \<noteq> versionBytes_signature C \<longrightarrow>
            Signature_fromBase58 C str =
              Throws (Error ''fromBase58Check: version byte does not match'')) \<and>
         (\<forall>str payload. fromBase58Check C str (versionBytes_signature C) = Returns payload \<and>
            length payload \<noteq> 1 + 2 * sizeInBytes C \<longrightarrow>
            (\<exists>err. Signature_fromBase58 C str = Throws err))"
proof (intro conjI allI impI)
  note sig = BinableSignature_contract [OF assms]
  {
    assume v: "r sg \<in> {0..<p} \<and> s sg \<in> {0..<q}"
    from assms have "length (computeChecksum C
        (versionBytes_signature C # toBytes (BinableSignature C) (r sg, s sg))) = 4"
      by (simp add: codec_contract_def)
    from fromBase58Check_toBase58Check [OF this]
      fromBytes_toBytes [OF sig, of "(r sg, s sg)"] v
    show "Signature_fromBase58 C (Signature_toBase58 C sg) = Returns sg"
      by (simp add: Signature_fromBase58_def Signature_toBase58_def BinableBase58_def base58_def)
  }
  {
    fix str sg'
    assume "Signature_fromBase58 C str = Returns sg'"
    then obtain payload where chk: "fromBase58Check C str (versionBytes_signature C) = Returns payload"
      and fb: "fromBytes (BinableSignature C) payload = Returns (r sg', s sg')"
      unfolding Signature_fromBase58_Returns by blast
    from toBytes_fromBytes [OF sig fb]
    have v: "r sg' \<in> {0..<p} \<and> s sg' \<in> {0..<q}"
      and tb: "toBytes (BinableSignature C) (r sg', s sg') = payload" by simp_all
    from v show "r sg' \<in> {0..<p}" and "s sg' \<in> {0..<q}" by simp_all
    from toBase58Check_fromBase58Check [OF chk] tb
    show "Signature_toBase58 C sg' = str"
      by (simp add: Signature_toBase58_def BinableBase58_def base58_def)
  }
  {
    fix str
    assume "base58_digits str = None"
    then show "Signature_fromBase58 C str = Throws (Error ''fromBase58: invalid character'')"
      by (simp add: Signature_fromBase58_def BinableBase58_def base58_def fromBase58Check_def
          base58_decode_def)
  }
  {
    fix str bytes
    assume "base58_decode str = Returns bytes \<and>
            drop (length bytes - 4) bytes \<noteq> computeChecksum C (take (length bytes - 4) bytes)"
    then show "Signature_fromBase58 C str = Throws (Error ''fromBase58Check: invalid checksum'')"
      by (simp add: Signature_fromBase58_def BinableBase58_def base58_def fromBase58Check_def
          Let_def)
  }
  {
    fix str bytes v payload
    assume "base58_decode str = Returns bytes \<and>
            drop (length bytes - 4) bytes = computeChecksum C (take (length bytes - 4) bytes) \<and>
            take (length bytes - 4) bytes = v # payload \<and> v \<noteq> versionBytes_signature C"
    then show "Signature_fromBase58 C str =
                 Throws (Error ''fromBase58Check: version byte does not match'')"
      by (simp add: Signature_fromBase58_def BinableBase58_def base58_def fromBase58Check_def
          Let_def)
  }
  {
    fix str payload
    assume a: "fromBase58Check C str (versionBytes_signature C) = Returns payload \<and>
               length payload \<noteq> 1 + 2 * sizeInBytes C"
    show "\<exists>err. Signature_fromBase58 C str = Throws err"
    proof (cases "Signature_fromBase58 C str")
      case (Throws err)
      then show ?thesis by blast
    next
      case (Returns sg')
      then obtain payload' where chk: "fromBase58Check C str (versionBytes_signature C) = Returns payload'"
        and fb: "fromBytes (BinableSignature C) payload' = Returns (r sg', s sg')"
        unfolding Signature_fromBase58_Returns by blast
      from chk a have same: "payload' = payload" by simp
      from toBytes_fromBytes [OF sig fb]
      have v: "r sg' \<in> {0..<p}" "s sg' \<in> {0..<q}"
        and tb: "toBytes (BinableSignature C) (r sg', s sg') = payload'" by simp_all
      from length_BinableSignature [OF assms v] tb same a show ?thesis by simp
    qed
  }
qed

text \<open>
  On the small codec: the signature \<open>(5, 8)\<close> is written as \<open>Sm2q8a6X3Jg\<close> and read
  back; a character outside the alphabet, a changed last character (bad checksum), the
  same payload under another version byte, a payload without \<open>s\<close> and a payload with
  one byte too many each throw.
\<close>

theorem Signature_base58_roundtrip_witness:
  "codec_contract 7 13 toy_codec \<and>
   Signature_toBase58 toy_codec \<lparr>r = 5, s = 8\<rparr> = ''Sm2q8a6X3Jg'' \<and>
   Signature_fromBase58 toy_codec ''Sm2q8a6X3Jg'' = Returns \<lparr>r = 5, s = 8\<rparr> \<and>
   Signature_fromBase58 toy_codec ''Sm2q8a6X3J0'' =
     Throws (Error ''fromBase58: invalid character'') \<and>
   Signature_fromBase58 toy_codec ''Sm2q8a6X3Jh'' =
     Throws (Error ''fromBase58Check: invalid checksum'') \<and>
   Signature_fromBase58 toy_codec ''SvjW9NwVdrZ'' =
     Throws (Error ''fromBase58Check: version byte does not match'') \<and>
   Signature_fromBase58 toy_codec ''6qVWYsBvJ4'' =
     Throws (Error ''readBytes: not enough bytes'') \<and>
   Signature_fromBase58 toy_codec ''2xhM5S6CCw3MS'' =
     Throws (Error ''fromBytes: input bytes left over'')"
proof -
  note T = Signature_base58_roundtrip [OF toy_codec_contract, where sg = "\<lparr>r = 5, s = 8\<rparr>"]
  have enc: "Signature_toBase58 toy_codec \<lparr>r = 5, s = 8\<rparr> = ''Sm2q8a6X3Jg''"
    by code_simp
  from T have "Signature_fromBase58 toy_codec (Signature_toBase58 toy_codec \<lparr>r = 5, s = 8\<rparr>) =
      Returns \<lparr>r = 5, s = 8\<rparr>"
    by simp
  then have dec: "Signature_fromBase58 toy_codec ''Sm2q8a6X3Jg'' = Returns \<lparr>r = 5, s = 8\<rparr>"
    by (simp only: enc)
  have chr: "base58_digits ''Sm2q8a6X3J0'' = None"
    by code_simp
  from T chr have bad_char: "Signature_fromBase58 toy_codec ''Sm2q8a6X3J0'' =
     Throws (Error ''fromBase58: invalid character'')"
    by blast
  have rest:
    "Signature_fromBase58 toy_codec ''Sm2q8a6X3Jh'' =
       Throws (Error ''fromBase58Check: invalid checksum'')"
    "Signature_fromBase58 toy_codec ''SvjW9NwVdrZ'' =
       Throws (Error ''fromBase58Check: version byte does not match'')"
    "Signature_fromBase58 toy_codec ''6qVWYsBvJ4'' =
       Throws (Error ''readBytes: not enough bytes'')"
    "Signature_fromBase58 toy_codec ''2xhM5S6CCw3MS'' =
       Throws (Error ''fromBytes: input bytes left over'')"
    by code_simp+
  from toy_codec_contract enc dec bad_char rest show ?thesis by simp
qed

end
